theory Spec2Isabelle
  imports Complex_Main "HOL-Library.Word" "HOL-Library.Signed_Division" "HOL-Library.Sublist"
begin

unbundle bit_operations_syntax

section \<open>Data model (migrations/schema.sql, internal/util/util.go)\<close>

text \<open>
  A UUID is an opaque identity; the store hands them out from a counter. A timestamp is a
  number of nanoseconds. A lifecycle-log element is the text of one JSON value; the
  \<open>lifecycle_logs\<close> column is the list of the elements of the JSONB array, in array order.
  \<open>hourly_cost\<close> (DOUBLE PRECISION) is carried as a rational; nothing below computes with it.
\<close>

type_synonym uuid = nat
type_synonym timestamp = int
type_synonym jsonb = string

definition ServerStatusProvisioning :: string where
  "ServerStatusProvisioning = ''provisioning''"

definition ServerStatusRunning :: string where
  "ServerStatusRunning = ''running''"

definition ServerStatusStopped :: string where
  "ServerStatusStopped = ''stopped''"

definition ServerStatusTerminated :: string where
  "ServerStatusTerminated = ''terminated''"

text \<open>Table \<open>servers\<close>.\<close>

record server =
  ID :: uuid
  Name :: string
  Region :: string
  Status :: string
  Address :: string
  Type :: string
  ProvisionedAt :: timestamp
  LastStatusUpdate :: timestamp
  UptimeSeconds :: "64 word"
  HourlyCost :: rat
  LifecycleLogs :: "jsonb list"
  CreatedAt :: timestamp
  UpdatedAt :: timestamp

text \<open>Table \<open>ip_addresses\<close>.\<close>

record ip_address =
  IpID :: uuid
  IpAddress :: string
  IsAllocated :: bool
  ServerID :: "uuid option"
  IpCreatedAt :: timestamp
  IpUpdatedAt :: timestamp

text \<open>
  Go errors. \<open>StoreError\<close> is an error that came back from the database driver,
  \<open>AppError\<close> one built by this program with \<open>errors.New\<close> or \<open>fmt.Errorf\<close>;
  \<open>error_text\<close> is \<open>err.Error()\<close>.
\<close>

datatype error = StoreError string | AppError string

fun error_text :: "error \<Rightarrow> string" where
  "error_text (StoreError m) = m"
| "error_text (AppError m) = m"

definition ErrNoRows :: error where
  "ErrNoRows = StoreError ''no rows in result set''"

text \<open>A Go call either returns or panics.\<close>

datatype 'a go = Panic string | Ret 'a

definition nil_dereference :: string where
  "nil_dereference = ''runtime error: invalid memory address or nil pointer dereference''"

section \<open>The store (sql/servers.sql, sql/ip_address.sql)\<close>

text \<open>
  The Go package of queries (\<open>internal/database/sqlc\<close>) is generated from the two SQL
  files; each query is taken here from its SQL text, under the result convention of its
  sqlc annotation: a \<open>:one\<close> query returns the row or the driver's no-rows error, an
  \<open>:exec\<close> query returns only an error, a \<open>:many\<close> query returns a list. Rows are kept
  in insertion order; the columns' length limits are not checked. The database can refuse any
  statement for reasons outside the tables (connection, a column limit, a bad cast);
  \<open>db_fault\<close> says for each query whether it does so, and with what message. A refused
  statement changes nothing. \<open>now\<close> is the clock, read by SQL's \<open>NOW()\<close> and by Go's
  \<open>time.Now()\<close> alike.
\<close>

datatype query =
    QCreateNewServer | QGetServer | QListServers | QUpdateServerStatus
  | QUpdateServerUptime | QAppendServerLifecycleLog | QEnforceLifecycleLogsLimit
  | QTerminateAllServers | QCreateIPAddress | QGetAvailableIPForAllocation
  | QAllocateIPAddress | QDeallocateIPAddress | QGetIPAddressByServerID
  | QTruncateIPAddresses

record db =
  servers :: "server list"
  ip_addresses :: "ip_address list"
  next_uuid :: nat
  now :: timestamp
  db_fault :: "query \<Rightarrow> string option"

definition run_query :: "db \<Rightarrow> query \<Rightarrow> ('a \<times> db) \<Rightarrow> (error \<Rightarrow> 'a) \<Rightarrow> 'a \<times> db" where
  "run_query d q body fail =
     (case db_fault d q of Some m \<Rightarrow> (fail (StoreError m), d) | None \<Rightarrow> body)"

definition find_server :: "uuid \<Rightarrow> server list \<Rightarrow> server option" where
  "find_server i rows = find (\<lambda>r. ID r = i) rows"

definition update_server :: "uuid \<Rightarrow> (server \<Rightarrow> server) \<Rightarrow> server list \<Rightarrow> server list" where
  "update_server i f rows = map (\<lambda>r. if ID r = i then f r else r) rows"

definition update_ip :: "uuid \<Rightarrow> (ip_address \<Rightarrow> ip_address) \<Rightarrow> ip_address list \<Rightarrow> ip_address list" where
  "update_ip i f rows = map (\<lambda>r. if IpID r = i then f r else r) rows"

text \<open>
  \<open>CreateNewServer :one\<close>: INSERT INTO servers (name, region, status, type, address,
  hourly_cost) VALUES (...) RETURNING *. The other columns take their defaults.
\<close>

definition CreateNewServer ::
  "string \<Rightarrow> string \<Rightarrow> string \<Rightarrow> string \<Rightarrow> string \<Rightarrow> rat \<Rightarrow> db \<Rightarrow> (error + server) \<times> db" where
  "CreateNewServer name region status type address hourly_cost d =
     run_query d QCreateNewServer
       (let row = \<lparr>ID = next_uuid d, Name = name, Region = region, Status = status,
                   Address = address, Type = type, ProvisionedAt = now d,
                   LastStatusUpdate = now d, UptimeSeconds = 0, HourlyCost = hourly_cost,
                   LifecycleLogs = [], CreatedAt = now d, UpdatedAt = now d\<rparr>
        in (Inr row, d\<lparr>servers := servers d @ [row], next_uuid := Suc (next_uuid d)\<rparr>))
       Inl"

text \<open>\<open>GetServer :one\<close>: SELECT * FROM servers WHERE id = $1.\<close>

definition GetServer :: "uuid \<Rightarrow> db \<Rightarrow> (error + server) \<times> db" where
  "GetServer i d =
     run_query d QGetServer
       (case find_server i (servers d) of
          None \<Rightarrow> (Inl ErrNoRows, d)
        | Some row \<Rightarrow> (Inr row, d))
       Inl"

text \<open>
  \<open>ListServers :many\<close>: SELECT * FROM servers WHERE status = $1 ORDER BY created_at DESC.
  Rows with the same creation time come in the reverse of their insertion order.
\<close>

definition ListServers :: "string \<Rightarrow> db \<Rightarrow> (error + server list) \<times> db" where
  "ListServers status d =
     run_query d QListServers
       (Inr (rev (sort_key CreatedAt (filter (\<lambda>r. Status r = status) (servers d)))), d)
       Inl"

text \<open>
  \<open>UpdateServerStatus :one\<close>: UPDATE servers SET status = $1, last_status_update = NOW()
  WHERE id = $2 RETURNING *.
\<close>

definition UpdateServerStatus :: "string \<Rightarrow> uuid \<Rightarrow> db \<Rightarrow> (error + server) \<times> db" where
  "UpdateServerStatus status i d =
     run_query d QUpdateServerStatus
       (case find_server i (servers d) of
          None \<Rightarrow> (Inl ErrNoRows, d)
        | Some row \<Rightarrow>
            (Inr (row\<lparr>Status := status, LastStatusUpdate := now d\<rparr>),
             d\<lparr>servers := update_server i
                   (\<lambda>r. r\<lparr>Status := status, LastStatusUpdate := now d\<rparr>) (servers d)\<rparr>))
       Inl"

text \<open>
  \<open>UpdateServerUptime :one\<close>: UPDATE servers SET uptime_seconds = $1, updated_at = NOW()
  WHERE id = $2 RETURNING *.
\<close>

definition UpdateServerUptime :: "64 word \<Rightarrow> uuid \<Rightarrow> db \<Rightarrow> (error + server) \<times> db" where
  "UpdateServerUptime uptime i d =
     run_query d QUpdateServerUptime
       (case find_server i (servers d) of
          None \<Rightarrow> (Inl ErrNoRows, d)
        | Some row \<Rightarrow>
            (Inr (row\<lparr>UptimeSeconds := uptime, UpdatedAt := now d\<rparr>),
             d\<lparr>servers := update_server i
                   (\<lambda>r. r\<lparr>UptimeSeconds := uptime, UpdatedAt := now d\<rparr>) (servers d)\<rparr>))
       Inl"

text \<open>
  The text PostgreSQL returns for a JSONB array: the elements between brackets, separated
  by a comma and a space. Go receives it as \<open>[]byte\<close>.
\<close>

fun jsonb_elements :: "jsonb list \<Rightarrow> string" where
  "jsonb_elements [] = []"
| "jsonb_elements [e] = e"
| "jsonb_elements (e # es) = e @ '', '' @ jsonb_elements es"

definition jsonb_out :: "jsonb list \<Rightarrow> string" where
  "jsonb_out es = ''['' @ jsonb_elements es @ '']''"

text \<open>
  \<open>AppendServerLifecycleLog :one\<close>: UPDATE servers SET lifecycle_logs =
  jsonb_build_array($1::jsonb) || lifecycle_logs WHERE id = $2 RETURNING lifecycle_logs.
  The new element goes to the front.
\<close>

definition AppendServerLifecycleLog :: "jsonb \<Rightarrow> uuid \<Rightarrow> db \<Rightarrow> (error + string) \<times> db" where
  "AppendServerLifecycleLog message i d =
     run_query d QAppendServerLifecycleLog
       (case find_server i (servers d) of
          None \<Rightarrow> (Inl ErrNoRows, d)
        | Some row \<Rightarrow>
            (Inr (jsonb_out (message # LifecycleLogs row)),
             d\<lparr>servers := update_server i
                   (\<lambda>r. r\<lparr>LifecycleLogs := message # LifecycleLogs r\<rparr>) (servers d)\<rparr>))
       Inl"

text \<open>
  \<open>EnforceLifecycleLogsLimit :exec\<close>: UPDATE servers SET lifecycle_logs = CASE WHEN
  jsonb_array_length(lifecycle_logs) > 100 THEN jsonb_path_query_array(lifecycle_logs,
  '$[0 to 14]') ELSE lifecycle_logs END WHERE id = $1. The path \<open>$[0 to 14]\<close> selects the
  elements at the subscripts 0 up to and including 14.
\<close>

definition EnforceLifecycleLogsLimit :: "uuid \<Rightarrow> db \<Rightarrow> error option \<times> db" where
  "EnforceLifecycleLogsLimit i d =
     run_query d QEnforceLifecycleLogsLimit
       (None,
        d\<lparr>servers := update_server i
              (\<lambda>r. r\<lparr>LifecycleLogs :=
                        (if length (LifecycleLogs r) > 100
                         then take (Suc 14) (LifecycleLogs r)
                         else LifecycleLogs r)\<rparr>) (servers d)\<rparr>)
       Some"

text \<open>
  Decimal text of a number, standing for the text forms the libraries give a UUID and a time.
\<close>

fun show_nat :: "nat \<Rightarrow> string" where
  "show_nat n =
     (if n < 10 then [char_of (48 + n)]
      else show_nat (n div 10) @ [char_of (48 + n mod 10)])"

declare show_nat.simps [simp del]

definition uuid_String :: "uuid \<Rightarrow> string" where
  "uuid_String i = show_nat i"

definition time_String :: "timestamp \<Rightarrow> string" where
  "time_String t = (if t < 0 then ''-'' @ show_nat (nat (- t)) else show_nat (nat t))"

text \<open>
  \<open>TerminateAllServers :exec\<close>: UPDATE servers SET status = 'terminated',
  last_status_update = NOW(), lifecycle_logs = lifecycle_logs || jsonb_build_object(...)
  WHERE status != 'terminated'. The object goes to the end of the array.
\<close>

definition system_reset_entry :: "timestamp \<Rightarrow> jsonb" where
  \<open>system_reset_entry t =
     ''{"event": "System Reset: Server Terminated by System", "timestamp": "'' @ time_String t
       @ ''", "request_id": "system-reset"}''\<close>

definition TerminateAllServers_query :: "db \<Rightarrow> error option \<times> db" where
  "TerminateAllServers_query d =
     run_query d QTerminateAllServers
       (None,
        d\<lparr>servers := map (\<lambda>r. if Status r \<noteq> ''terminated''
                                then r\<lparr>Status := ''terminated'', LastStatusUpdate := now d,
                                       LifecycleLogs := LifecycleLogs r @ [system_reset_entry (now d)]\<rparr>
                                else r) (servers d)\<rparr>)
       Some"

text \<open>
  \<open>CreateIPAddress :one\<close>: INSERT INTO ip_addresses (address) VALUES ($1) RETURNING *.
  The column is UNIQUE: a second row with the same address is refused.
\<close>

definition CreateIPAddress :: "string \<Rightarrow> db \<Rightarrow> (error + ip_address) \<times> db" where
  "CreateIPAddress address d =
     run_query d QCreateIPAddress
       (if address \<in> set (map IpAddress (ip_addresses d))
        then (Inl (StoreError ''duplicate key value violates unique constraint''), d)
        else let row = \<lparr>IpID = next_uuid d, IpAddress = address, IsAllocated = False,
                         ServerID = None, IpCreatedAt = now d, IpUpdatedAt = now d\<rparr>
             in (Inr row, d\<lparr>ip_addresses := ip_addresses d @ [row],
                             next_uuid := Suc (next_uuid d)\<rparr>))
       Inl"

text \<open>
  \<open>GetAvailableIPForAllocation :one\<close>: SELECT * FROM ip_addresses WHERE is_allocated = FALSE
  AND server_id IS NULL ORDER BY created_at ASC FOR UPDATE SKIP LOCKED LIMIT 1. The queries
  run on the connection pool, outside any transaction, so the row lock ends with the
  statement: the selection changes no row.
\<close>

definition GetAvailableIPForAllocation :: "db \<Rightarrow> (error + ip_address) \<times> db" where
  "GetAvailableIPForAllocation d =
     run_query d QGetAvailableIPForAllocation
       (case sort_key IpCreatedAt
               (filter (\<lambda>r. IsAllocated r = False \<and> ServerID r = None) (ip_addresses d)) of
          [] \<Rightarrow> (Inl ErrNoRows, d)
        | row # _ \<Rightarrow> (Inr row, d))
       Inl"

text \<open>
  \<open>AllocateIPAddress :one\<close>: UPDATE ip_addresses SET is_allocated = TRUE, server_id = $1,
  updated_at = NOW() WHERE id = $2 AND is_allocated = FALSE AND server_id IS NULL
  RETURNING *. \<open>server_id\<close> is UNIQUE and REFERENCES servers(id).
\<close>

definition AllocateIPAddress :: "uuid \<Rightarrow> uuid \<Rightarrow> db \<Rightarrow> (error + ip_address) \<times> db" where
  "AllocateIPAddress server_id i d =
     run_query d QAllocateIPAddress
       (case find (\<lambda>r. IpID r = i \<and> IsAllocated r = False \<and> ServerID r = None) (ip_addresses d) of
          None \<Rightarrow> (Inl ErrNoRows, d)
        | Some row \<Rightarrow>
            if find_server server_id (servers d) = None
            then (Inl (StoreError ''violates foreign key constraint''), d)
            else if Some server_id \<in> set (map ServerID (ip_addresses d))
            then (Inl (StoreError ''duplicate key value violates unique constraint''), d)
            else (Inr (row\<lparr>IsAllocated := True, ServerID := Some server_id, IpUpdatedAt := now d\<rparr>),
                  d\<lparr>ip_addresses := update_ip i
                        (\<lambda>r. if IsAllocated r = False \<and> ServerID r = None
                             then r\<lparr>IsAllocated := True, ServerID := Some server_id,
                                    IpUpdatedAt := now d\<rparr>
                             else r) (ip_addresses d)\<rparr>))
       Inl"

text \<open>
  \<open>DeallocateIPAddress :one\<close>: UPDATE ip_addresses SET is_allocated = FALSE, server_id = NULL,
  updated_at = NOW() WHERE id = $1 RETURNING *.
\<close>

definition DeallocateIPAddress :: "uuid \<Rightarrow> db \<Rightarrow> (error + ip_address) \<times> db" where
  "DeallocateIPAddress i d =
     run_query d QDeallocateIPAddress
       (case find (\<lambda>r. IpID r = i) (ip_addresses d) of
          None \<Rightarrow> (Inl ErrNoRows, d)
        | Some row \<Rightarrow>
            (Inr (row\<lparr>IsAllocated := False, ServerID := None, IpUpdatedAt := now d\<rparr>),
             d\<lparr>ip_addresses := update_ip i
                   (\<lambda>r. r\<lparr>IsAllocated := False, ServerID := None, IpUpdatedAt := now d\<rparr>)
                   (ip_addresses d)\<rparr>))
       Inl"

text \<open>\<open>GetIPAddressByServerID :one\<close>: SELECT * FROM ip_addresses WHERE server_id = $1.\<close>

definition GetIPAddressByServerID :: "uuid \<Rightarrow> db \<Rightarrow> (error + ip_address) \<times> db" where
  "GetIPAddressByServerID server_id d =
     run_query d QGetIPAddressByServerID
       (case find (\<lambda>r. ServerID r = Some server_id) (ip_addresses d) of
          None \<Rightarrow> (Inl ErrNoRows, d)
        | Some row \<Rightarrow> (Inr row, d))
       Inl"

text \<open>\<open>TruncateIPAddresses :exec\<close>: TRUNCATE ip_addresses RESTART IDENTITY CASCADE.\<close>

definition TruncateIPAddresses :: "db \<Rightarrow> error option \<times> db" where
  "TruncateIPAddresses d =
     run_query d QTruncateIPAddresses (None, d\<lparr>ip_addresses := []\<rparr>) Some"

section \<open>Lifecycle state machine (internal/util/util.go)\<close>

definition IsValidTransition :: "string \<Rightarrow> string \<Rightarrow> bool" where
  "IsValidTransition currentStatus desiredStatus =
     (if currentStatus = ServerStatusProvisioning
      then desiredStatus = ServerStatusRunning \<or> desiredStatus = ServerStatusTerminated
      else if currentStatus = ServerStatusRunning
      then desiredStatus = ServerStatusStopped \<or> desiredStatus = ServerStatusTerminated
      else if currentStatus = ServerStatusStopped
      then desiredStatus = ServerStatusRunning \<or> desiredStatus = ServerStatusTerminated
      else if currentStatus = ServerStatusTerminated
      then False
      else False)"

section \<open>Services (package services)\<close>

text \<open>
  A service object holds a pointer to the generated query set, which may be nil; the
  query set itself has no state of its own, every query acts on the one database. Logging
  through zap and the process-wide mutexes are not part of the model: every function
  below runs alone from its first statement to its last.
\<close>

datatype Queries = Queries

record IPAllocator =
  ipa_queries :: "Queries option"

record ServerService =
  queries :: "Queries option"
  ipAllocator :: IPAllocator
  ServerTypeWisePricing :: "string \<rightharpoonup> rat"

record BillingDaemon =
  bd_queries :: "Queries option"

definition NewIPAllocator :: "Queries option \<Rightarrow> IPAllocator" where
  "NewIPAllocator q = \<lparr>ipa_queries = q\<rparr>"

definition NewServerService ::
  "Queries option \<Rightarrow> IPAllocator \<Rightarrow> (string \<rightharpoonup> rat) \<Rightarrow> ServerService" where
  "NewServerService q ipa pricing =
     \<lparr>queries = q, ipAllocator = ipa, ServerTypeWisePricing = pricing\<rparr>"

definition NewBillingAndReaperDaemon :: "Queries option \<Rightarrow> BillingDaemon" where
  "NewBillingAndReaperDaemon q = \<lparr>bd_queries = q\<rparr>"

text \<open>The JSON text every call site builds by concatenation for its log entry.\<close>

definition log_message :: "string \<Rightarrow> string \<Rightarrow> uuid \<Rightarrow> timestamp \<Rightarrow> jsonb" where
  \<open>log_message reqID action serverID t =
     ''{"REQUEST_ID":"'' @ reqID @ ''","ACTION": "'' @ action @ ''","SERVER_ID":"''
       @ uuid_String serverID @ ''","TIME":"'' @ time_String t @ ''"}''\<close>

text \<open>
  The body both branches of \<open>AppendServerLifecycleLogs\<close> share: append, then, when the
  returned bytes are more than 100, call the limit query. \<open>len(updatedLogs)\<close> is the
  length in bytes of the array's text.
\<close>

definition append_then_enforce :: "uuid \<Rightarrow> jsonb \<Rightarrow> db \<Rightarrow> error option \<times> db" where
  "append_then_enforce serverID message d =
     (case AppendServerLifecycleLog message serverID d of
        (Inl err, d1) \<Rightarrow> (Some err, d1)
      | (Inr updatedLogs, d1) \<Rightarrow>
          if length updatedLogs > 100
          then EnforceLifecycleLogsLimit serverID d1
          else (None, d1))"

text \<open>
  \<open>AppendServerLifecycleLogs(s, bd, ctx, serverID, message)\<close>. Its first statement reads
  \<open>s.queries\<close>: with \<open>s\<close> nil that read is a nil-pointer dereference.
\<close>

definition AppendServerLifecycleLogs ::
  "ServerService option \<Rightarrow> BillingDaemon option \<Rightarrow> uuid \<Rightarrow> jsonb \<Rightarrow> db
     \<Rightarrow> error option go \<times> db" where
  "AppendServerLifecycleLogs s bd serverID message d =
     (case s of
        None \<Rightarrow> (Panic nil_dereference, d)
      | Some ss \<Rightarrow>
          if queries ss \<noteq> None
          then (case append_then_enforce serverID message d of (e, d1) \<Rightarrow> (Ret e, d1))
          else (case bd of
                  None \<Rightarrow> (Panic nil_dereference, d)
                | Some b \<Rightarrow>
                    (case bd_queries b of
                       None \<Rightarrow> (Panic nil_dereference, d)
                     | Some _ \<Rightarrow>
                         (case append_then_enforce serverID message d of
                            (e, d1) \<Rightarrow> (Ret e, d1)))))"

text \<open>
  A run of appends to the log of one server, each a call of \<open>AppendServerLifecycleLogs\<close> on
  the service, in the order of the messages. The callers log the error a call returns and
  go on; a panic ends the run.
\<close>

fun append_each :: "ServerService option \<Rightarrow> uuid \<Rightarrow> jsonb list \<Rightarrow> db \<Rightarrow> unit go \<times> db" where
  "append_each s i [] d = (Ret (), d)"
| "append_each s i (m # ms) d =
     (case AppendServerLifecycleLogs s None i m d of
        (Panic p, d1) \<Rightarrow> (Panic p, d1)
      | (Ret e, d1) \<Rightarrow> append_each s i ms d1)"

definition invalid_transition :: "string \<Rightarrow> string \<Rightarrow> error" where
  "invalid_transition current desired =
     AppError (''invalid state transition'' @ '' from '' @ current @ '' to '' @ desired)"

definition StartServer ::
  "ServerService \<Rightarrow> string \<Rightarrow> server \<Rightarrow> db \<Rightarrow> (error + server) go \<times> db" where
  "StartServer s reqID server d =
     (if \<not> IsValidTransition (Status server) ServerStatusRunning
      then (Ret (Inl (invalid_transition (Status server) ServerStatusRunning)), d)
      else case queries s of
        None \<Rightarrow> (Panic nil_dereference, d)
      | Some _ \<Rightarrow>
         (case UpdateServerStatus ServerStatusRunning (ID server) d of
            (Inl err, d1) \<Rightarrow> (Ret (Inl err), d1)
          | (Inr updatedServer, d1) \<Rightarrow>
              (case AppendServerLifecycleLogs (Some s) None (ID server)
                      (log_message reqID ''Server start initiated'' (ID server) (now d1)) d1 of
                 (Panic p, d2) \<Rightarrow> (Panic p, d2)
               | (Ret _, d2) \<Rightarrow> (Ret (Inr updatedServer), d2))))"

definition StopServer ::
  "ServerService \<Rightarrow> string \<Rightarrow> server \<Rightarrow> db \<Rightarrow> (error + server) go \<times> db" where
  "StopServer s reqID server d =
     (if \<not> IsValidTransition (Status server) ServerStatusStopped
      then (Ret (Inl (invalid_transition (Status server) ServerStatusStopped)), d)
      else case queries s of
        None \<Rightarrow> (Panic nil_dereference, d)
      | Some _ \<Rightarrow>
         (case UpdateServerStatus ServerStatusStopped (ID server) d of
            (Inl err, d1) \<Rightarrow> (Ret (Inl err), d1)
          | (Inr updatedServer, d1) \<Rightarrow>
              (case AppendServerLifecycleLogs (Some s) None (ID server)
                      (log_message reqID ''Server stop initiated'' (ID server) (now d1)) d1 of
                 (Panic p, d2) \<Rightarrow> (Panic p, d2)
               | (Ret _, d2) \<Rightarrow> (Ret (Inr updatedServer), d2))))"

text \<open>
  \<open>RebootServer\<close> does not consult \<open>IsValidTransition\<close>: it refuses the terminated status
  and nothing else, logs first, and then sets the status to running.
\<close>

definition RebootServer ::
  "ServerService \<Rightarrow> string \<Rightarrow> server \<Rightarrow> db \<Rightarrow> (error + server) go \<times> db" where
  "RebootServer s reqID server d =
     (if Status server = ServerStatusTerminated
      then (Ret (Inl (AppError (''invalid state transition'' @ '': cannot reboot from ''
                                  @ Status server))), d)
      else case AppendServerLifecycleLogs (Some s) None (ID server)
                  (log_message reqID ''Server reboot initiated'' (ID server) (now d)) d of
        (Panic p, d1) \<Rightarrow> (Panic p, d1)
      | (Ret _, d1) \<Rightarrow>
          (case queries s of
             None \<Rightarrow> (Panic nil_dereference, d1)
           | Some _ \<Rightarrow>
              (case UpdateServerStatus ServerStatusRunning (ID server) d1 of
                 (Inl err, d2) \<Rightarrow> (Ret (Inl err), d2)
               | (Inr updatedServer, d2) \<Rightarrow> (Ret (Inr updatedServer), d2))))"

text \<open>
  \<open>TerminateServer\<close>: the status is written first, then the address row is fetched and
  deallocated, then the log entry is appended and the server row is read again. (The
  second \<open>if err != nil\<close> after the deallocation can never fire and is left out.)
\<close>

definition TerminateServer ::
  "ServerService \<Rightarrow> string \<Rightarrow> server \<Rightarrow> db \<Rightarrow> (error + server) go \<times> db" where
  "TerminateServer s reqID server d =
     (if \<not> IsValidTransition (Status server) ServerStatusTerminated
      then (Ret (Inl (invalid_transition (Status server) ServerStatusTerminated)), d)
      else case queries s of
        None \<Rightarrow> (Panic nil_dereference, d)
      | Some _ \<Rightarrow>
         (case UpdateServerStatus ServerStatusTerminated (ID server) d of
            (Inl err, d1) \<Rightarrow>
              (Ret (Inl (AppError (''failed to update server status to terminated: ''
                                     @ error_text err))), d1)
          | (Inr _, d1) \<Rightarrow>
              (case GetIPAddressByServerID (ID server) d1 of
                 (Inl err, d2) \<Rightarrow>
                   (Ret (Inl (AppError (''failed to get IP address by server ID: ''
                                          @ error_text err))), d2)
               | (Inr ipData, d2) \<Rightarrow>
                   (case DeallocateIPAddress (IpID ipData) d2 of
                      (Inl err, d3) \<Rightarrow>
                        (Ret (Inl (AppError (''failed to deallocate IP address: ''
                                               @ error_text err))), d3)
                    | (Inr _, d3) \<Rightarrow>
                        (case AppendServerLifecycleLogs (Some s) None (ID server)
                                (log_message reqID ''Server terminated'' (ID server) (now d3)) d3 of
                           (Panic p, d4) \<Rightarrow> (Panic p, d4)
                         | (Ret _, d4) \<Rightarrow>
                             (case GetServer (ID server) d4 of
                                (Inl err, d5) \<Rightarrow> (Ret (Inl err), d5)
                              | (Inr updatedServer, d5) \<Rightarrow> (Ret (Inr updatedServer), d5)))))))"

subsection \<open>Address allocator\<close>

definition AllocateIP :: "IPAllocator \<Rightarrow> db \<Rightarrow> (error + ip_address) go \<times> db" where
  "AllocateIP ipa d =
     (case ipa_queries ipa of
        None \<Rightarrow> (Panic nil_dereference, d)
      | Some _ \<Rightarrow>
         (case GetAvailableIPForAllocation d of
            (Inl err, d1) \<Rightarrow> (Ret (Inl err), d1)
          | (Inr availableIP, d1) \<Rightarrow> (Ret (Inr availableIP), d1)))"

definition saveAllocatedIP :: "IPAllocator \<Rightarrow> uuid \<Rightarrow> uuid \<Rightarrow> db \<Rightarrow> error option go \<times> db" where
  "saveAllocatedIP ipa serverID allocatedIP d =
     (case ipa_queries ipa of
        None \<Rightarrow> (Panic nil_dereference, d)
      | Some _ \<Rightarrow>
         (case AllocateIPAddress serverID allocatedIP d of
            (Inl err, d1) \<Rightarrow> (Ret (Some err), d1)
          | (Inr availableIP, d1) \<Rightarrow> (Ret None, d1)))"

subsection \<open>Provisioning\<close>

text \<open>
  \<open>ProvisionNewServer\<close>. When \<open>CreateNewServer\<close> fails the function returns at once: the
  comment there asks for the address to be deallocated, and no statement follows it.
\<close>

definition ProvisionNewServer ::
  "ServerService \<Rightarrow> string \<Rightarrow> string \<Rightarrow> string \<Rightarrow> string \<Rightarrow> db \<Rightarrow> (error + server) go \<times> db" where
  "ProvisionNewServer s reqID name region serverType d =
     (case AllocateIP (ipAllocator s) d of
        (Panic p, d1) \<Rightarrow> (Panic p, d1)
      | (Ret (Inl err), d1) \<Rightarrow> (Ret (Inl (AppError ''failed to allocate IP address'')), d1)
      | (Ret (Inr allocatedIP), d1) \<Rightarrow>
          (let hourlyConst = (case ServerTypeWisePricing s serverType of
                                Some c \<Rightarrow> c
                              | None \<Rightarrow> 1 / 10)
           in case queries s of
             None \<Rightarrow> (Panic nil_dereference, d1)
           | Some _ \<Rightarrow>
              (case CreateNewServer (name @ ''_'' @ IpAddress allocatedIP) region
                      ServerStatusProvisioning serverType (IpAddress allocatedIP) hourlyConst d1 of
                 (Inl err, d2) \<Rightarrow>
                   (Ret (Inl (AppError (''failed to create server: '' @ error_text err))), d2)
               | (Inr server, d2) \<Rightarrow>
                   (case saveAllocatedIP (ipAllocator s) (ID server) (IpID allocatedIP) d2 of
                      (Panic p, d3) \<Rightarrow> (Panic p, d3)
                    | (Ret deallocateErr, d3) \<Rightarrow>
                        (case AppendServerLifecycleLog
                                (log_message reqID ''Server provisioned successfully''
                                   (ID server) (now d3))
                                (ID server) d3 of
                           (_, d4) \<Rightarrow> (Ret (Inr server), d4))))))"

subsection \<open>Billing and reaper daemon\<close>

text \<open>
  \<open>time.Since(t)\<close>: the difference of two times as a Duration, an int64 count of
  nanoseconds that saturates at either end.
\<close>

definition time_Since :: "timestamp \<Rightarrow> timestamp \<Rightarrow> int" where
  "time_Since current t = max (- (2 ^ 63)) (min (2 ^ 63 - 1) (current - t))"

text \<open>
  \<open>newUptimeSeconds\<close>: int64 arithmetic, the division truncating, the sum wrapping.
\<close>

definition newUptimeSeconds :: "server \<Rightarrow> timestamp \<Rightarrow> 64 word" where
  "newUptimeSeconds server current =
     UptimeSeconds server
       + word_of_int (time_Since current (LastStatusUpdate server) sdiv 1000000000)"

text \<open>
  The body of the loop of \<open>processBilling\<close>, for one server of the list. Both log appends
  pass \<open>nil\<close> for the service and the daemon for \<open>bd\<close>.
\<close>

definition billing_step :: "BillingDaemon \<Rightarrow> string \<Rightarrow> server \<Rightarrow> db \<Rightarrow> unit go \<times> db" where
  "billing_step billingDaemon reqID server d =
     (let newUptime = newUptimeSeconds server (now d)
      in case UpdateServerUptime newUptime (ID server) d of
        (_, d1) \<Rightarrow>
          (case AppendServerLifecycleLogs None (Some billingDaemon) (ID server)
                  (log_message reqID ''Server uptime updated'' (ID server) (now d1)) d1 of
             (Panic p, d2) \<Rightarrow> (Panic p, d2)
           | (Ret _, d2) \<Rightarrow>
               if 1800 <s newUptime \<and> Status server \<noteq> ServerStatusTerminated
               then (case UpdateServerStatus ServerStatusTerminated (ID server) d2 of
                       (Inl err, d3) \<Rightarrow> (Ret (), d3)
                     | (Inr _, d3) \<Rightarrow>
                         (case AppendServerLifecycleLogs None (Some billingDaemon) (ID server)
                                 (log_message reqID
                                    ''Timeout detected, server status updated to terminated''
                                    (ID server) (now d3)) d3 of
                            (Panic p, d4) \<Rightarrow> (Panic p, d4)
                          | (Ret _, d4) \<Rightarrow> (Ret (), d4)))
               else (Ret (), d2)))"

fun billing_loop :: "BillingDaemon \<Rightarrow> string \<Rightarrow> server list \<Rightarrow> db \<Rightarrow> unit go \<times> db" where
  "billing_loop billingDaemon reqID [] d = (Ret (), d)"
| "billing_loop billingDaemon reqID (server # rest) d =
     (case billing_step billingDaemon reqID server d of
        (Panic p, d1) \<Rightarrow> (Panic p, d1)
      | (Ret _, d1) \<Rightarrow> billing_loop billingDaemon reqID rest d1)"

definition processBilling :: "BillingDaemon \<Rightarrow> string \<Rightarrow> db \<Rightarrow> unit go \<times> db" where
  "processBilling billingDaemon reqID d =
     (case bd_queries billingDaemon of
        None \<Rightarrow> (Panic nil_dereference, d)
      | Some _ \<Rightarrow>
         (case ListServers ServerStatusRunning d of
            (Inl err, d1) \<Rightarrow> (Ret (), d1)
          | (Inr running, d1) \<Rightarrow> billing_loop billingDaemon reqID running d1))"

subsection \<open>Pool initialisation\<close>

text \<open>
  \<open>net/netip\<close> is a library: its two parsers are parameters of the model, and its address
  is an IPv4 address of 32 bits (or the zero \<open>Addr\<close>, which is no address). A
  \<open>Prefix\<close> keeps the address as it was written, unmasked, with the number of leading
  bits; \<open>ParsePrefix\<close> gives at most 32 of them.
\<close>

datatype Addr = AddrZero | Addr4 "32 word"

record Prefix =
  prefix_Addr :: "32 word"
  prefix_Bits :: nat

text \<open>\<open>Addr.Next\<close>: the next address, or the zero \<open>Addr\<close> after the last one.\<close>

definition Addr_Next :: "32 word \<Rightarrow> Addr" where
  "Addr_Next a = (if a + 1 = 0 then AddrZero else Addr4 (a + 1))"

text \<open>
  \<open>Prefix.Contains\<close>: the two addresses differ in none of the leading \<open>Bits\<close> bits.
\<close>

fun Prefix_Contains :: "Prefix \<Rightarrow> Addr \<Rightarrow> bool" where
  "Prefix_Contains p AddrZero = False"
| "Prefix_Contains p (Addr4 a) = (drop_bit (32 - prefix_Bits p) (a XOR prefix_Addr p) = 0)"

text \<open>\<open>Addr.String\<close>: the four bytes in decimal, separated by dots.\<close>

definition Addr_String :: "32 word \<Rightarrow> string" where
  "Addr_String a =
     show_nat (unat (drop_bit 24 a) mod 256) @ ''.'' @
     show_nat (unat (drop_bit 16 a) mod 256) @ ''.'' @
     show_nat (unat (drop_bit 8 a) mod 256) @ ''.'' @
     show_nat (unat a mod 256)"

fun build_exclude ::
  "(string \<Rightarrow> 32 word option) \<Rightarrow> string list \<Rightarrow> (32 word \<Rightarrow> bool) \<Rightarrow> (32 word \<Rightarrow> bool)" where
  "build_exclude ParseAddr [] exclude = exclude"
| "build_exclude ParseAddr (ex # rest) exclude =
     (case ParseAddr ex of
        None \<Rightarrow> build_exclude ParseAddr rest exclude
      | Some addr \<Rightarrow> build_exclude ParseAddr rest (exclude(addr := True)))"

text \<open>One pass of the body of the population loop: skip, or insert and count.\<close>

definition populate_body ::
  "Prefix \<Rightarrow> (32 word \<Rightarrow> bool) \<Rightarrow> 32 word \<Rightarrow> nat \<Rightarrow> db \<Rightarrow> nat \<times> db" where
  "populate_body pfx exclude a count d =
     (if exclude a \<or> a = prefix_Addr pfx then (count, d)
      else case CreateIPAddress (Addr_String a) d of
        (Inl err, d1) \<Rightarrow> (count, d1)
      | (Inr _, d1) \<Rightarrow> (count + 1, d1))"

text \<open>
  \<open>for addr := prefix.Addr(); prefix.Contains(addr); addr = addr.Next()\<close>.
\<close>

function populate ::
  "Prefix \<Rightarrow> (32 word \<Rightarrow> bool) \<Rightarrow> Addr \<Rightarrow> nat \<Rightarrow> db \<Rightarrow> nat \<times> db" where
  "populate pfx exclude AddrZero count d = (count, d)"
| "populate pfx exclude (Addr4 a) count d =
     (if \<not> Prefix_Contains pfx (Addr4 a) then (count, d)
      else case populate_body pfx exclude a count d of
        (count1, d1) \<Rightarrow> populate pfx exclude (Addr_Next a) count1 d1)"
  by pat_completeness auto
termination
proof (relation "measure (\<lambda>(p, e, a, c, d). case a of AddrZero \<Rightarrow> 0 | Addr4 w \<Rightarrow> 2 ^ 32 - unat w)")
  show "wf (measure (\<lambda>(p, e, a, c, d). case a of AddrZero \<Rightarrow> 0 | Addr4 w \<Rightarrow> 2 ^ 32 - unat w))"
    by simp
next
  fix pfx :: Prefix and exclude :: "32 word \<Rightarrow> bool" and a :: "32 word" and count :: nat
    and d :: db and xa :: nat and y :: db
  have lt: "unat a < 2 ^ 32"
    using unsigned_less [of a, where 'a = nat] by simp
  show "((pfx, exclude, Addr_Next a, xa, y), pfx, exclude, Addr4 a, count, d)
          \<in> measure (\<lambda>(p, e, a, c, d). case a of AddrZero \<Rightarrow> 0 | Addr4 w \<Rightarrow> 2 ^ 32 - unat w)"
  proof (cases "a + 1 = 0")
    case True
    then show ?thesis using lt by (simp add: Addr_Next_def)
  next
    case False
    then have "unat (a + 1) = Suc (unat a)"
      using unatSuc [of a] by (simp add: add.commute)
    then show ?thesis using lt False by (simp add: Addr_Next_def)
  qed
qed

declare populate.simps [simp del]

text \<open>The startup routine either leaves the process, panics, or returns.\<close>

datatype startup = OsExit int | StartupPanic string | StartupReturn "error option"

definition schema_missing :: "error option \<Rightarrow> bool" where
  "schema_missing err =
     (case err of None \<Rightarrow> False | Some e \<Rightarrow> sublist '' does not exist'' (error_text e))"

text \<open>
  \<open>IPAllocator.TerminateAllServers(ctx, cidr, exclusionList)\<close>: terminate every server,
  empty the pool, then fill it from the CIDR block. A failure of the first two
  statements is logged and the routine goes on, unless its text says that a relation does
  not exist. The error for a CIDR that does not parse writes the CIDR with the verb
  \<open>%q\<close> of \<open>fmt\<close>, which quotes and escapes it: that quoting is a library function and,
  like the parsers of \<open>net/netip\<close>, a parameter \<open>Quote\<close> of the model.
\<close>

definition TerminateAllServers ::
  "(string \<Rightarrow> string) \<Rightarrow> (string \<Rightarrow> error + Prefix) \<Rightarrow> (string \<Rightarrow> 32 word option)
     \<Rightarrow> IPAllocator \<Rightarrow> string \<Rightarrow> string list \<Rightarrow> db \<Rightarrow> startup \<times> db" where
  \<open>TerminateAllServers Quote ParsePrefix ParseAddr ipa cidr exclusionList d =
     (case ipa_queries ipa of
        None \<Rightarrow> (StartupPanic nil_dereference, d)
      | Some _ \<Rightarrow>
         (case TerminateAllServers_query d of
            (err1, d1) \<Rightarrow>
              if schema_missing err1 then (OsExit 0, d1)
              else (case TruncateIPAddresses d1 of
                      (err2, d2) \<Rightarrow>
                        if schema_missing err2 then (OsExit 0, d2)
                        else (case ParsePrefix cidr of
                                Inl err \<Rightarrow>
                                  (StartupReturn (Some (AppError
                                     (''invalid CIDR '' @ Quote cidr @ '': '' @ error_text err))), d2)
                              | Inr pfx \<Rightarrow>
                                  (case populate pfx
                                          (build_exclude ParseAddr exclusionList (\<lambda>_. False))
                                          (Addr4 (prefix_Addr pfx)) 0 d2 of
                                     (count, d3) \<Rightarrow> (StartupReturn None, d3))))))\<close>

section \<open>The transition table of the specification\<close>

text \<open>
  The table as the specification writes it (section 4.2), row by row; the state machine
  of the code is compared with it below.
\<close>

definition transition_table :: "(string \<times> string) list" where
  "transition_table =
     [(ServerStatusProvisioning, ServerStatusRunning),
      (ServerStatusProvisioning, ServerStatusTerminated),
      (ServerStatusRunning, ServerStatusStopped),
      (ServerStatusRunning, ServerStatusTerminated),
      (ServerStatusStopped, ServerStatusRunning),
      (ServerStatusStopped, ServerStatusTerminated)]"

section \<open>Observations on the store\<close>

text \<open>What a reader of the store sees of one server: its status and its lifecycle log.\<close>

definition status_of :: "uuid \<Rightarrow> db \<Rightarrow> string option" where
  "status_of i d = map_option Status (find_server i (servers d))"

definition logs_of :: "uuid \<Rightarrow> db \<Rightarrow> jsonb list option" where
  "logs_of i d = map_option LifecycleLogs (find_server i (servers d))"

section \<open>The pool and the block of a prefix\<close>

text \<open>
  The address values present in the pool; the addresses the exclusion list names (those
  of its entries that parse); and, for the loop over a prefix, the addresses of the block
  from a given address upward.
\<close>

definition pool_addresses :: "db \<Rightarrow> string set" where
  "pool_addresses d = set (map IpAddress (ip_addresses d))"

definition excluded :: "(string \<Rightarrow> 32 word option) \<Rightarrow> string list \<Rightarrow> 32 word set" where
  "excluded ParseAddr exclusionList = set (List.map_filter ParseAddr exclusionList)"

fun upward_block :: "Prefix \<Rightarrow> Addr \<Rightarrow> 32 word set" where
  "upward_block pfx AddrZero = {}"
| "upward_block pfx (Addr4 a) =
     (if Prefix_Contains pfx (Addr4 a) then {b. a \<le> b \<and> Prefix_Contains pfx (Addr4 b)} else {})"

section \<open>Example store\<close>

text \<open>
  One server with one bound address, served by a service and a daemon built the way
  \<open>main\<close> builds them; the concrete instances below are evaluated on it.
\<close>

definition ex_service :: ServerService where
  "ex_service = NewServerService (Some Queries) (NewIPAllocator (Some Queries)) Map.empty"

definition ex_daemon :: BillingDaemon where
  "ex_daemon = NewBillingAndReaperDaemon (Some Queries)"

definition ex_server :: "string \<Rightarrow> server" where
  "ex_server status =
     \<lparr>ID = 1, Name = ''web1_10.0.0.1'', Region = ''us-east-1'', Status = status,
      Address = ''10.0.0.1'', Type = ''t2.micro'', ProvisionedAt = 0, LastStatusUpdate = 0,
      UptimeSeconds = 0, HourlyCost = 1 / 10, LifecycleLogs = [], CreatedAt = 0, UpdatedAt = 0\<rparr>"

definition ex_ip :: ip_address where
  "ex_ip = \<lparr>IpID = 2, IpAddress = ''10.0.0.1'', IsAllocated = True, ServerID = Some 1,
            IpCreatedAt = 0, IpUpdatedAt = 0\<rparr>"

definition no_fault :: "query \<Rightarrow> string option" where
  "no_fault q = None"

definition ex_db :: "string \<Rightarrow> timestamp \<Rightarrow> db" where
  "ex_db status t =
     \<lparr>servers = [ex_server status], ip_addresses = [ex_ip], next_uuid = 3, now = t,
      db_fault = no_fault\<rparr>"

text \<open>
  The same store with one query refused by the database, and the same store with no
  address row at all.
\<close>

definition one_fault :: "query \<Rightarrow> query \<Rightarrow> string option" where
  "one_fault q x = (if x = q then Some ''connection lost'' else None)"

definition ex_db_fault :: "string \<Rightarrow> timestamp \<Rightarrow> query \<Rightarrow> db" where
  "ex_db_fault status t q = (ex_db status t)\<lparr>db_fault := one_fault q\<rparr>"

definition ex_db_unbound :: "string \<Rightarrow> timestamp \<Rightarrow> db" where
  "ex_db_unbound status t = (ex_db status t)\<lparr>ip_addresses := []\<rparr>"

text \<open>
  The same store with a lifecycle log of a given length, and with a given uptime already
  accumulated.
\<close>

definition ex_db_logs :: "nat \<Rightarrow> db" where
  "ex_db_logs n =
     (ex_db ''running'' 5)\<lparr>servers := [(ex_server ''running'')\<lparr>LifecycleLogs := replicate n ''{}''\<rparr>]\<rparr>"

definition ex_db_uptime :: "64 word \<Rightarrow> timestamp \<Rightarrow> db" where
  "ex_db_uptime up t =
     (ex_db ''running'' t)\<lparr>servers := [(ex_server ''running'')\<lparr>UptimeSeconds := up\<rparr>]\<rparr>"

text \<open>
  Two parsers for the examples: they know the block 10.0.0.4/30, written with its base
  address, with its second address and with its last address, and the address 10.0.0.6.
  The quoting of the examples is the one \<open>%q\<close> gives a text with nothing to escape: the
  text between double quotes.
\<close>

definition ex_Quote :: "string \<Rightarrow> string" where
  \<open>ex_Quote s = ''"'' @ s @ ''"''\<close>

definition ex_ParsePrefix :: "string \<Rightarrow> error + Prefix" where
  "ex_ParsePrefix s =
     (if s = ''10.0.0.4/30'' then Inr \<lparr>prefix_Addr = 0x0A000004, prefix_Bits = 30\<rparr>
      else if s = ''10.0.0.5/30'' then Inr \<lparr>prefix_Addr = 0x0A000005, prefix_Bits = 30\<rparr>
      else if s = ''10.0.0.7/30'' then Inr \<lparr>prefix_Addr = 0x0A000007, prefix_Bits = 30\<rparr>
      else Inl (AppError ''netip.ParsePrefix: no such prefix in this example''))"

definition ex_ParseAddr :: "string \<Rightarrow> 32 word option" where
  "ex_ParseAddr s = (if s = ''10.0.0.6'' then Some 0x0A000006 else None)"

section \<open>Basic facts\<close>

lemmas status_defs =
  ServerStatusProvisioning_def ServerStatusRunning_def
  ServerStatusStopped_def ServerStatusTerminated_def

lemmas ex_defs =
  ex_service_def ex_daemon_def ex_server_def ex_ip_def ex_db_def no_fault_def
  NewServerService_def NewIPAllocator_def NewBillingAndReaperDaemon_def

lemma IsValidTransition_table:
  "IsValidTransition c t \<longleftrightarrow> (c, t) \<in> set transition_table"
  by (auto simp: IsValidTransition_def transition_table_def status_defs)

lemma StartServer_reject_iff:
  "StartServer s reqID server d = (Ret (Inl (invalid_transition (Status server) ServerStatusRunning)), d)
     \<longleftrightarrow> \<not> IsValidTransition (Status server) ServerStatusRunning"
  by (auto simp: StartServer_def UpdateServerStatus_def run_query_def invalid_transition_def ErrNoRows_def
       split: option.splits prod.splits sum.splits go.splits)

lemma StopServer_reject_iff:
  "StopServer s reqID server d = (Ret (Inl (invalid_transition (Status server) ServerStatusStopped)), d)
     \<longleftrightarrow> \<not> IsValidTransition (Status server) ServerStatusStopped"
  by (auto simp: StopServer_def UpdateServerStatus_def run_query_def invalid_transition_def ErrNoRows_def
       split: option.splits prod.splits sum.splits go.splits)

lemma TerminateServer_reject_iff:
  "TerminateServer s reqID server d = (Ret (Inl (invalid_transition (Status server) ServerStatusTerminated)), d)
     \<longleftrightarrow> \<not> IsValidTransition (Status server) ServerStatusTerminated"
  by (auto simp: TerminateServer_def UpdateServerStatus_def GetServer_def run_query_def invalid_transition_def ErrNoRows_def
       split: option.splits prod.splits sum.splits go.splits)

lemmas ex_fault_defs = one_fault_def ex_db_fault_def ex_db_unbound_def

lemmas query_defs =
  UpdateServerStatus_def GetIPAddressByServerID_def DeallocateIPAddress_def GetServer_def
  AppendServerLifecycleLog_def EnforceLifecycleLogsLimit_def run_query_def find_server_def
  update_server_def update_ip_def ErrNoRows_def

lemmas service_defs =
  TerminateServer_def AppendServerLifecycleLogs_def append_then_enforce_def IsValidTransition_def
  status_defs

subsection \<open>What each query changes\<close>

lemma find_server_ID: "find_server i rows = Some r \<Longrightarrow> ID r = i"
  by (auto simp: find_server_def find_Some_iff)

lemma find_server_update:
  "(\<And>r. ID (f r) = ID r) \<Longrightarrow>
   find_server i (update_server j f rows)
     = map_option (\<lambda>r. if ID r = j then f r else r) (find_server i rows)"
  by (induction rows) (auto simp: find_server_def update_server_def)

lemma map_ID_update_server:
  "(\<And>r. ID (f r) = ID r) \<Longrightarrow> map ID (update_server j f rows) = map ID rows"
  by (induction rows) (auto simp: update_server_def)

lemma status_of_update_server:
  assumes "\<And>r. ID (f r) = ID r" and "\<And>r. Status (f r) = Status r"
  shows "status_of j (d\<lparr>servers := update_server i f (servers d)\<rparr>) = status_of j d"
  using assms by (cases "find_server j (servers d)") (simp_all add: status_of_def find_server_update)

lemma UpdateServerStatus_ok:
  "find_server i (servers d) = Some r \<Longrightarrow> db_fault d QUpdateServerStatus = None \<Longrightarrow>
   UpdateServerStatus st i d
     = (Inr (r\<lparr>Status := st, LastStatusUpdate := now d\<rparr>),
        d\<lparr>servers := update_server i (\<lambda>r. r\<lparr>Status := st, LastStatusUpdate := now d\<rparr>) (servers d)\<rparr>)"
  by (simp add: UpdateServerStatus_def run_query_def)

lemma UpdateServerStatus_Inr:
  assumes "UpdateServerStatus st i d = (Inr u, d1)"
  shows "Status u = st \<and> ID u = i \<and> status_of i d1 = Some st
     \<and> ip_addresses d1 = ip_addresses d \<and> db_fault d1 = db_fault d \<and> now d1 = now d"
proof -
  from assms obtain r where r: "find_server i (servers d) = Some r"
    and f: "db_fault d QUpdateServerStatus = None"
    by (auto simp: UpdateServerStatus_def run_query_def split: option.splits)
  have "ID r = i" using r by (rule find_server_ID)
  with assms r f show ?thesis
    by (auto simp: UpdateServerStatus_ok status_of_def find_server_update)
qed

lemma UpdateServerStatus_Inl:
  "UpdateServerStatus st i d = (Inl e, d1) \<Longrightarrow> d1 = d"
  by (auto simp: UpdateServerStatus_def run_query_def split: option.splits)

lemma failed_query_keeps_db:
  "GetIPAddressByServerID i d = (r, d') \<Longrightarrow> d' = d"
  "GetServer i d = (rs, d') \<Longrightarrow> d' = d"
  "DeallocateIPAddress j d = (Inl e, d') \<Longrightarrow> d' = d"
  "GetAvailableIPForAllocation d = (ra, d') \<Longrightarrow> d' = d"
  "CreateNewServer n rg st ty ad hc d = (Inl e, d') \<Longrightarrow> d' = d"
  by (auto simp: GetIPAddressByServerID_def GetServer_def DeallocateIPAddress_def
        GetAvailableIPForAllocation_def CreateNewServer_def run_query_def Let_def
      split: option.splits list.splits)

lemma AppendServerLifecycleLog_frame:
  assumes "AppendServerLifecycleLog m i d = (r, d')"
  shows "db_fault d' = db_fault d \<and> now d' = now d \<and> ip_addresses d' = ip_addresses d
     \<and> next_uuid d' = next_uuid d \<and> status_of j d' = status_of j d
     \<and> map ID (servers d') = map ID (servers d)"
proof (cases "db_fault d QAppendServerLifecycleLog = None \<and> find_server i (servers d) \<noteq> None")
  case True
  then have "d' = d\<lparr>servers := update_server i
                   (\<lambda>r. r\<lparr>LifecycleLogs := m # LifecycleLogs r\<rparr>) (servers d)\<rparr>"
    using assms by (auto simp: AppendServerLifecycleLog_def run_query_def)
  then show ?thesis
    by (simp add: status_of_update_server map_ID_update_server)
next
  case False
  then have "d' = d"
    using assms by (auto simp: AppendServerLifecycleLog_def run_query_def split: option.splits)
  then show ?thesis by simp
qed

lemma EnforceLifecycleLogsLimit_frame:
  assumes "EnforceLifecycleLogsLimit i d = (r, d')"
  shows "db_fault d' = db_fault d \<and> now d' = now d \<and> ip_addresses d' = ip_addresses d
     \<and> next_uuid d' = next_uuid d \<and> status_of j d' = status_of j d
     \<and> map ID (servers d') = map ID (servers d)"
proof (cases "db_fault d QEnforceLifecycleLogsLimit")
  case None
  then have "d' = d\<lparr>servers := update_server i
              (\<lambda>r. r\<lparr>LifecycleLogs :=
                        (if length (LifecycleLogs r) > 100
                         then take (Suc 14) (LifecycleLogs r)
                         else LifecycleLogs r)\<rparr>) (servers d)\<rparr>"
    using assms by (auto simp: EnforceLifecycleLogsLimit_def run_query_def)
  then show ?thesis
    by (simp add: status_of_update_server map_ID_update_server)
next
  case (Some a)
  then have "d' = d"
    using assms by (auto simp: EnforceLifecycleLogsLimit_def run_query_def)
  then show ?thesis by simp
qed

lemma append_then_enforce_frame:
  assumes "append_then_enforce i m d = (e, d')"
  shows "db_fault d' = db_fault d \<and> now d' = now d \<and> ip_addresses d' = ip_addresses d
     \<and> next_uuid d' = next_uuid d \<and> status_of j d' = status_of j d
     \<and> map ID (servers d') = map ID (servers d)"
proof -
  obtain r d1 where a: "AppendServerLifecycleLog m i d = (r, d1)"
    by (cases "AppendServerLifecycleLog m i d")
  note fa = AppendServerLifecycleLog_frame [OF a, of j]
  show ?thesis
  proof (cases "\<exists>logs. r = Inr logs \<and> length logs > 100")
    case True
    then have "EnforceLifecycleLogsLimit i d1 = (e, d')"
      using assms a by (auto simp: append_then_enforce_def)
    from EnforceLifecycleLogsLimit_frame [OF this, of j] fa show ?thesis by simp
  next
    case False
    then have "d' = d1"
      using assms a by (auto simp: append_then_enforce_def split: sum.splits if_splits)
    with fa show ?thesis by simp
  qed
qed

lemma AppendServerLifecycleLogs_service:
  "queries s \<noteq> None \<Longrightarrow>
   AppendServerLifecycleLogs (Some s) bd i m d
     = (Ret (fst (append_then_enforce i m d)), snd (append_then_enforce i m d))"
  by (simp add: AppendServerLifecycleLogs_def split: prod.splits)

lemma AppendServerLifecycleLogs_nil_service:
  "AppendServerLifecycleLogs None bd i m d = (Panic nil_dereference, d)"
  by (simp add: AppendServerLifecycleLogs_def)

lemma status_of_None_iff:
  "status_of i d = None \<longleftrightarrow> find_server i (servers d) = None"
  by (simp add: status_of_def)

lemma UpdateServerStatus_Inl_StoreError:
  "UpdateServerStatus st i d = (Inl e, d1) \<Longrightarrow> \<exists>m. e = StoreError m"
  by (auto simp: UpdateServerStatus_def run_query_def ErrNoRows_def split: option.splits)

lemma GetServer_Inl_StoreError:
  "GetServer i d = (Inl e, d1) \<Longrightarrow> \<exists>m. e = StoreError m"
  by (auto simp: GetServer_def run_query_def ErrNoRows_def split: option.splits)

lemma DeallocateIPAddress_ok:
  "db_fault d QDeallocateIPAddress = None \<Longrightarrow> find (\<lambda>r. IpID r = i) (ip_addresses d) = Some row \<Longrightarrow>
   DeallocateIPAddress i d =
     (Inr (row\<lparr>IsAllocated := False, ServerID := None, IpUpdatedAt := now d\<rparr>),
      d\<lparr>ip_addresses := update_ip i
                   (\<lambda>r. r\<lparr>IsAllocated := False, ServerID := None, IpUpdatedAt := now d\<rparr>)
                   (ip_addresses d)\<rparr>)"
  by (simp add: DeallocateIPAddress_def run_query_def)

lemma DeallocateIPAddress_fail:
  "db_fault d QDeallocateIPAddress \<noteq> None \<or> find (\<lambda>r. IpID r = i) (ip_addresses d) = None \<Longrightarrow>
   \<exists>e. DeallocateIPAddress i d = (Inl e, d)"
  by (auto simp: DeallocateIPAddress_def run_query_def split: option.splits)

lemma update_ip_released:
  "r \<in> set (update_ip i (\<lambda>r. r\<lparr>IsAllocated := False, ServerID := None, IpUpdatedAt := t\<rparr>) rows)
    \<Longrightarrow> IpID r = i \<Longrightarrow> \<not> IsAllocated r \<and> ServerID r = None"
  unfolding update_ip_def set_map by (erule imageE) (simp split: if_splits)

lemma DeallocateIPAddress_Inr:
  assumes "DeallocateIPAddress i d = (Inr ip', d')"
  shows "servers d' = servers d \<and> db_fault d' = db_fault d \<and> now d' = now d
     \<and> (\<forall>r \<in> set (ip_addresses d'). IpID r = i \<longrightarrow> \<not> IsAllocated r \<and> ServerID r = None)
     \<and> \<not> IsAllocated ip' \<and> ServerID ip' = None"
proof (cases "db_fault d QDeallocateIPAddress = None")
  case nf: True
  show ?thesis
  proof (cases "find (\<lambda>r. IpID r = i) (ip_addresses d)")
    case None
    then obtain e where "DeallocateIPAddress i d = (Inl e, d)"
      using DeallocateIPAddress_fail [of d i] by blast
    with assms show ?thesis by simp
  next
    case (Some row)
    from assms [unfolded DeallocateIPAddress_ok [OF nf Some]]
    have ip': "ip' = row\<lparr>IsAllocated := False, ServerID := None, IpUpdatedAt := now d\<rparr>"
      and d': "d' = d\<lparr>ip_addresses := update_ip i
                     (\<lambda>r. r\<lparr>IsAllocated := False, ServerID := None, IpUpdatedAt := now d\<rparr>)
                     (ip_addresses d)\<rparr>"
      by simp_all
    have "\<forall>r \<in> set (ip_addresses d'). IpID r = i \<longrightarrow> \<not> IsAllocated r \<and> ServerID r = None"
      unfolding d' using update_ip_released [of _ i "now d" "ip_addresses d"] by simp
    then show ?thesis by (simp add: ip') (simp add: d')
  qed
next
  case False
  then obtain e where "DeallocateIPAddress i d = (Inl e, d)"
    using DeallocateIPAddress_fail [of d i] by blast
  with assms show ?thesis by simp
qed

lemma GetAvailableIPForAllocation_Inr:
  assumes "GetAvailableIPForAllocation d = (Inr ip, d')"
  shows "d' = d \<and> ip \<in> set (ip_addresses d) \<and> \<not> IsAllocated ip \<and> ServerID ip = None"
proof -
  let ?free = "filter (\<lambda>r. IsAllocated r = False \<and> ServerID r = None) (ip_addresses d)"
  from assms have "db_fault d QGetAvailableIPForAllocation = None"
    by (cases "db_fault d QGetAvailableIPForAllocation")
       (simp_all add: GetAvailableIPForAllocation_def run_query_def)
  with assms have c: "(case sort_key IpCreatedAt ?free of
          [] \<Rightarrow> (Inl ErrNoRows, d)
        | row # _ \<Rightarrow> (Inr row, d)) = (Inr ip, d')"
    by (simp add: GetAvailableIPForAllocation_def run_query_def)
  then obtain rest where s: "sort_key IpCreatedAt ?free = ip # rest" and "d' = d"
    by (cases "sort_key IpCreatedAt ?free") simp_all
  have "ip \<in> set (sort_key IpCreatedAt ?free)" unfolding s by simp
  then have "ip \<in> set ?free" by simp
  with \<open>d' = d\<close> show ?thesis by auto
qed

lemma RebootServer_unfold:
  assumes "Status server \<noteq> ServerStatusTerminated"
  shows "RebootServer s reqID server d =
     (case queries s of
        None \<Rightarrow> (Panic nil_dereference, d)
      | Some _ \<Rightarrow>
          (case UpdateServerStatus ServerStatusRunning (ID server)
                  (snd (append_then_enforce (ID server)
                     (log_message reqID ''Server reboot initiated'' (ID server) (now d)) d)) of
             (Inl err, d2) \<Rightarrow> (Ret (Inl err), d2)
           | (Inr u, d2) \<Rightarrow> (Ret (Inr u), d2)))"
proof (cases "queries s")
  case None
  with assms show ?thesis
    by (simp add: RebootServer_def AppendServerLifecycleLogs_def)
next
  case (Some q)
  with assms show ?thesis
    by (simp add: RebootServer_def AppendServerLifecycleLogs_service split: prod.splits)
qed

lemma TerminateServer_unfold:
  assumes "IsValidTransition (Status server) ServerStatusTerminated" and "queries s \<noteq> None"
    and "UpdateServerStatus ServerStatusTerminated (ID server) d = (Inr u, d1)"
  shows "TerminateServer s reqID server d =
     (case GetIPAddressByServerID (ID server) d1 of
        (Inl err, d2) \<Rightarrow>
          (Ret (Inl (AppError (''failed to get IP address by server ID: '' @ error_text err))), d1)
      | (Inr ipData, d2) \<Rightarrow>
          (case DeallocateIPAddress (IpID ipData) d1 of
             (Inl err, d3) \<Rightarrow>
               (Ret (Inl (AppError (''failed to deallocate IP address: '' @ error_text err))), d1)
           | (Inr _, d3) \<Rightarrow>
               (let d4 = snd (append_then_enforce (ID server)
                               (log_message reqID ''Server terminated'' (ID server) (now d3)) d3)
                in (Ret (fst (GetServer (ID server) d4)), d4))))"
proof -
  from assms(2) obtain q where q: "queries s = Some q" by blast
  obtain r1 d2 where g: "GetIPAddressByServerID (ID server) d1 = (r1, d2)"
    by (cases "GetIPAddressByServerID (ID server) d1")
  then have d2: "d2 = d1" by (rule failed_query_keeps_db)
  show ?thesis
  proof (cases r1)
    case (Inl err)
    with assms q g d2 show ?thesis by (simp add: TerminateServer_def)
  next
    case (Inr ipData)
    obtain r2 d3 where de: "DeallocateIPAddress (IpID ipData) d1 = (r2, d3)"
      by (cases "DeallocateIPAddress (IpID ipData) d1")
    show ?thesis
    proof (cases r2)
      case (Inl err)
      with de have "d3 = d1" by (simp add: failed_query_keeps_db)
      with assms q g d2 Inr de Inl show ?thesis by (simp add: TerminateServer_def)
    next
      case r2: (Inr ip')
      let ?m = "log_message reqID ''Server terminated'' (ID server) (now d3)"
      obtain r3 d5 where gs: "GetServer (ID server) (snd (append_then_enforce (ID server) ?m d3)) = (r3, d5)"
        by (cases "GetServer (ID server) (snd (append_then_enforce (ID server) ?m d3))")
      then have d5: "d5 = snd (append_then_enforce (ID server) ?m d3)"
        by (rule failed_query_keeps_db)
      from assms q g d2 Inr de r2 gs d5 show ?thesis
        by (cases r3) (simp_all add: TerminateServer_def AppendServerLifecycleLogs_service Let_def)
    qed
  qed
qed

lemma GetServer_ok:
  "db_fault d QGetServer = None \<Longrightarrow> find_server i (servers d) = Some row \<Longrightarrow>
   GetServer i d = (Inr row, d)"
  by (simp add: GetServer_def run_query_def)

lemma status_of_Some:
  "status_of i d = Some st \<Longrightarrow> \<exists>row. find_server i (servers d) = Some row \<and> Status row = st"
  by (auto simp: status_of_def)

lemma GetServer_not_AppError:
  "fst (GetServer i d) \<noteq> Inl (AppError m)"
  by (cases "GetServer i d") (auto dest: GetServer_Inl_StoreError)

section \<open>C1: the state machine and the transition table\<close>

text \<open>
  C1. \<open>IsValidTransition\<close> accepts a pair of statuses exactly when the pair is in the
  transition table; it accepts nothing from the terminated status and no transition of
  a non-terminal status to itself. The three operations guarded by it (start, stop,
  terminate) answer a pair outside the table, and only such a pair, with the error
  "invalid state transition from (current) to (requested)", leaving the store as it was.
\<close>

theorem transition_accepted_iff_in_table:
  "(IsValidTransition current target \<longleftrightarrow> (current, target) \<in> set transition_table)
   \<and> \<not> IsValidTransition ServerStatusTerminated target
   \<and> (current \<in> {ServerStatusProvisioning, ServerStatusRunning, ServerStatusStopped}
        \<longrightarrow> \<not> IsValidTransition current current)
   \<and> (StartServer s reqID server d
         = (Ret (Inl (invalid_transition (Status server) ServerStatusRunning)), d)
        \<longleftrightarrow> \<not> IsValidTransition (Status server) ServerStatusRunning)
   \<and> (StopServer s reqID server d
         = (Ret (Inl (invalid_transition (Status server) ServerStatusStopped)), d)
        \<longleftrightarrow> \<not> IsValidTransition (Status server) ServerStatusStopped)
   \<and> (TerminateServer s reqID server d
         = (Ret (Inl (invalid_transition (Status server) ServerStatusTerminated)), d)
        \<longleftrightarrow> \<not> IsValidTransition (Status server) ServerStatusTerminated)
   \<and> error_text (invalid_transition current target)
        = ''invalid state transition from '' @ current @ '' to '' @ target"
proof -
  have a: "\<not> IsValidTransition ServerStatusTerminated target"
    by (simp add: IsValidTransition_def status_defs)
  have b: "current \<in> {ServerStatusProvisioning, ServerStatusRunning, ServerStatusStopped}
             \<longrightarrow> \<not> IsValidTransition current current"
    by (auto simp: IsValidTransition_def status_defs)
  have c: "error_text (invalid_transition current target)
             = ''invalid state transition from '' @ current @ '' to '' @ target"
    by (simp add: invalid_transition_def)
  show ?thesis
    using IsValidTransition_table a b c StartServer_reject_iff StopServer_reject_iff
      TerminateServer_reject_iff
    by blast
qed

theorem transition_accepted_iff_in_table_witness:
  "\<not> IsValidTransition ''running'' ''running''
   \<and> (''running'', ''running'') \<notin> set transition_table
   \<and> ''running'' \<in> {ServerStatusProvisioning, ServerStatusRunning, ServerStatusStopped}
   \<and> StartServer ex_service ''req'' (ex_server ''terminated'') (ex_db ''terminated'' 0)
       = (Ret (Inl (AppError ''invalid state transition from terminated to running'')),
          ex_db ''terminated'' 0)
   \<and> error_text (invalid_transition ''running'' ''running'')
       = ''invalid state transition from running to running''"
  using transition_accepted_iff_in_table
    [of "''running''" "''running''" ex_service "''req''" "ex_server ''terminated''"
        "ex_db ''terminated'' 0"]
  by (simp add: ex_server_def status_defs invalid_transition_def IsValidTransition_def)

section \<open>C9: reboot\<close>

text \<open>
  C9. A reboot request on a server whose status is not terminated (provisioning, running,
  stopped: running included) sets the status to running and returns the updated row, as
  soon as the row exists and the store takes the update. On a terminated server it is
  refused with "invalid state transition: cannot reboot from terminated", and that is the
  only refusal the operation itself pronounces: any error it builds implies that the
  server was terminated.
\<close>

theorem reboot_goes_to_running:
  "(Status server \<noteq> ServerStatusTerminated \<longrightarrow> queries s \<noteq> None
      \<longrightarrow> find_server (ID server) (servers d) \<noteq> None
      \<longrightarrow> db_fault d QUpdateServerStatus = None
      \<longrightarrow> (\<exists>updated d'. RebootServer s reqID server d = (Ret (Inr updated), d')
            \<and> Status updated = ServerStatusRunning \<and> ID updated = ID server
            \<and> status_of (ID server) d' = Some ServerStatusRunning))
   \<and> (Status server = ServerStatusTerminated
      \<longrightarrow> RebootServer s reqID server d
           = (Ret (Inl (AppError (''invalid state transition: cannot reboot from ''
                                    @ Status server))), d))
   \<and> (\<forall>m d'. RebootServer s reqID server d = (Ret (Inl (AppError m)), d')
      \<longrightarrow> Status server = ServerStatusTerminated)"
proof (intro conjI impI allI)
  assume nt: "Status server \<noteq> ServerStatusTerminated" and q: "queries s \<noteq> None"
    and row: "find_server (ID server) (servers d) \<noteq> None"
    and nf: "db_fault d QUpdateServerStatus = None"
  let ?m = "log_message reqID ''Server reboot initiated'' (ID server) (now d)"
  obtain e d1 where a: "append_then_enforce (ID server) ?m d = (e, d1)"
    by (cases "append_then_enforce (ID server) ?m d")
  note fr = append_then_enforce_frame [OF a, of "ID server"]
  from row fr obtain r where r: "find_server (ID server) (servers d1) = Some r"
    by (auto simp: status_of_def)
  have nf1: "db_fault d1 QUpdateServerStatus = None" using fr nf by simp
  obtain updated d2 where u: "UpdateServerStatus ServerStatusRunning (ID server) d1 = (Inr updated, d2)"
    using UpdateServerStatus_ok [OF r nf1, of ServerStatusRunning] by blast
  from q obtain qq where qq: "queries s = Some qq" by blast
  have "RebootServer s reqID server d = (Ret (Inr updated), d2)"
    unfolding RebootServer_unfold [OF nt] by (simp add: qq a u)
  with UpdateServerStatus_Inr [OF u]
  show "\<exists>updated d'. RebootServer s reqID server d = (Ret (Inr updated), d')
            \<and> Status updated = ServerStatusRunning \<and> ID updated = ID server
            \<and> status_of (ID server) d' = Some ServerStatusRunning"
    by blast
next
  assume "Status server = ServerStatusTerminated"
  then show "RebootServer s reqID server d
           = (Ret (Inl (AppError (''invalid state transition: cannot reboot from ''
                                    @ Status server))), d)"
    by (simp add: RebootServer_def)
next
  fix m d'
  assume r: "RebootServer s reqID server d = (Ret (Inl (AppError m)), d')"
  show "Status server = ServerStatusTerminated"
  proof (rule ccontr)
    assume "Status server \<noteq> ServerStatusTerminated"
    from r [unfolded RebootServer_unfold [OF this]] show False
      by (auto split: option.splits prod.splits sum.splits dest: UpdateServerStatus_Inl_StoreError)
  qed
qed

theorem reboot_goes_to_running_witness:
  "Status (ex_server ''running'') \<noteq> ServerStatusTerminated \<and> queries ex_service \<noteq> None
   \<and> find_server (ID (ex_server ''running'')) (servers (ex_db ''running'' 5)) \<noteq> None
   \<and> db_fault (ex_db ''running'' 5) QUpdateServerStatus = None
   \<and> (\<exists>updated d'. RebootServer ex_service ''req'' (ex_server ''running'') (ex_db ''running'' 5)
                       = (Ret (Inr updated), d')
          \<and> Status updated = ServerStatusRunning \<and> ID updated = ID (ex_server ''running'')
          \<and> status_of (ID (ex_server ''running'')) d' = Some ServerStatusRunning)
   \<and> RebootServer ex_service ''req'' (ex_server ''terminated'') (ex_db ''terminated'' 5)
       = (Ret (Inl (AppError ''invalid state transition: cannot reboot from terminated'')),
          ex_db ''terminated'' 5)"
  using reboot_goes_to_running [of "ex_server ''running''" ex_service "ex_db ''running'' 5" "''req''"]
    reboot_goes_to_running [of "ex_server ''terminated''" ex_service "ex_db ''terminated'' 5" "''req''"]
  by (simp add: ex_defs status_defs find_server_def)

section \<open>C5: terminate releases the address or fails\<close>

text \<open>
  C5. A terminate request on a server in a non-terminal state, once the status is written:
  if fetching the address row fails, the operation returns "failed to get IP address by
  server ID"; if the deallocation fails, it returns "failed to deallocate IP address"; if
  both succeed, the address row is free in the resulting store and the operation returns
  the terminated server whatever became of the log append.
\<close>

theorem terminate_releases_address_or_fails:
  assumes valid: "IsValidTransition (Status server) ServerStatusTerminated"
    and q: "queries s \<noteq> None"
    and u: "UpdateServerStatus ServerStatusTerminated (ID server) d = (Inr updated, d1)"
  shows "(\<forall>e. fst (GetIPAddressByServerID (ID server) d1) = Inl e \<longrightarrow>
            fst (TerminateServer s reqID server d)
              = Ret (Inl (AppError (''failed to get IP address by server ID: '' @ error_text e))))
     \<and> (\<forall>ip e. fst (GetIPAddressByServerID (ID server) d1) = Inr ip
            \<and> fst (DeallocateIPAddress (IpID ip) d1) = Inl e \<longrightarrow>
            fst (TerminateServer s reqID server d)
              = Ret (Inl (AppError (''failed to deallocate IP address: '' @ error_text e))))
     \<and> (\<forall>ip released. fst (GetIPAddressByServerID (ID server) d1) = Inr ip
            \<and> fst (DeallocateIPAddress (IpID ip) d1) = Inr released \<longrightarrow>
            (\<forall>r \<in> set (ip_addresses (snd (TerminateServer s reqID server d))).
                IpID r = IpID ip \<longrightarrow> \<not> IsAllocated r \<and> ServerID r = None)
            \<and> (db_fault d QGetServer = None \<longrightarrow>
                 (\<exists>row. fst (TerminateServer s reqID server d) = Ret (Inr row)
                        \<and> Status row = ServerStatusTerminated)))"
proof (intro conjI allI impI)
  fix e
  assume "fst (GetIPAddressByServerID (ID server) d1) = Inl e"
  then show "fst (TerminateServer s reqID server d)
              = Ret (Inl (AppError (''failed to get IP address by server ID: '' @ error_text e)))"
    unfolding TerminateServer_unfold [OF valid q u]
    by (cases "GetIPAddressByServerID (ID server) d1") simp
next
  fix ip e
  assume "fst (GetIPAddressByServerID (ID server) d1) = Inr ip
            \<and> fst (DeallocateIPAddress (IpID ip) d1) = Inl e"
  then show "fst (TerminateServer s reqID server d)
              = Ret (Inl (AppError (''failed to deallocate IP address: '' @ error_text e)))"
    unfolding TerminateServer_unfold [OF valid q u]
    by (cases "GetIPAddressByServerID (ID server) d1"; cases "DeallocateIPAddress (IpID ip) d1") simp
next
  fix ip released
  assume a: "fst (GetIPAddressByServerID (ID server) d1) = Inr ip
            \<and> fst (DeallocateIPAddress (IpID ip) d1) = Inr released"
  obtain d3 where de: "DeallocateIPAddress (IpID ip) d1 = (Inr released, d3)"
    using a by (cases "DeallocateIPAddress (IpID ip) d1") simp
  let ?m = "log_message reqID ''Server terminated'' (ID server) (now d3)"
  obtain e4 d4 where ap: "append_then_enforce (ID server) ?m d3 = (e4, d4)"
    by (cases "append_then_enforce (ID server) ?m d3")
  have t: "TerminateServer s reqID server d = (Ret (fst (GetServer (ID server) d4)), d4)"
    unfolding TerminateServer_unfold [OF valid q u] using a de ap
    by (cases "GetIPAddressByServerID (ID server) d1") simp
  note fr = append_then_enforce_frame [OF ap, of "ID server"]
  note dr = DeallocateIPAddress_Inr [OF de]
  note ur = UpdateServerStatus_Inr [OF u]
  show "\<forall>r \<in> set (ip_addresses (snd (TerminateServer s reqID server d))).
                IpID r = IpID ip \<longrightarrow> \<not> IsAllocated r \<and> ServerID r = None"
    using dr fr by (simp add: t)
  show "\<exists>row. fst (TerminateServer s reqID server d) = Ret (Inr row)
                        \<and> Status row = ServerStatusTerminated"
    if nf: "db_fault d QGetServer = None"
  proof -
    have "status_of (ID server) d4 = Some ServerStatusTerminated"
      using fr dr ur by (simp add: status_of_def)
    then obtain row where row: "find_server (ID server) (servers d4) = Some row"
      and st: "Status row = ServerStatusTerminated"
      by (blast dest: status_of_Some)
    have "db_fault d4 QGetServer = None" using fr dr ur nf by simp
    from GetServer_ok [OF this row] st show ?thesis by (simp add: t)
  qed
qed

theorem terminate_releases_address_or_fails_witness:
  "IsValidTransition (Status (ex_server ''running'')) ServerStatusTerminated
   \<and> queries ex_service \<noteq> None
   \<and> fst (TerminateServer ex_service ''req'' (ex_server ''running'') (ex_db_unbound ''running'' 5))
       = Ret (Inl (AppError ''failed to get IP address by server ID: no rows in result set''))
   \<and> fst (TerminateServer ex_service ''req'' (ex_server ''running'')
             (ex_db_fault ''running'' 5 QDeallocateIPAddress))
       = Ret (Inl (AppError ''failed to deallocate IP address: connection lost''))
   \<and> map (\<lambda>r. (IpID r, IsAllocated r, ServerID r))
        (ip_addresses (snd (TerminateServer ex_service ''req'' (ex_server ''running'')
                              (ex_db_fault ''running'' 5 QAppendServerLifecycleLog))))
       = [(IpID ex_ip, False, None)]
   \<and> (\<exists>row. fst (TerminateServer ex_service ''req'' (ex_server ''running'')
                     (ex_db_fault ''running'' 5 QAppendServerLifecycleLog)) = Ret (Inr row)
            \<and> Status row = ServerStatusTerminated)"
proof -
  have valid: "IsValidTransition (Status (ex_server ''running'')) ServerStatusTerminated"
    by (simp add: ex_defs IsValidTransition_def status_defs)
  have q: "queries ex_service \<noteq> None"
    by (simp add: ex_defs)
  have u1: "UpdateServerStatus ServerStatusTerminated (ID (ex_server ''running''))
              (ex_db_unbound ''running'' 5)
            = (Inr ((ex_server ''running'')\<lparr>Status := ServerStatusTerminated, LastStatusUpdate := 5\<rparr>),
               (ex_db_unbound ''running'' 5)
                 \<lparr>servers := [(ex_server ''running'')\<lparr>Status := ServerStatusTerminated,
                                                       LastStatusUpdate := 5\<rparr>]\<rparr>)"
    by (simp add: ex_defs ex_fault_defs query_defs)
  have u2: "UpdateServerStatus ServerStatusTerminated (ID (ex_server ''running''))
              (ex_db_fault ''running'' 5 QDeallocateIPAddress)
            = (Inr ((ex_server ''running'')\<lparr>Status := ServerStatusTerminated, LastStatusUpdate := 5\<rparr>),
               (ex_db_fault ''running'' 5 QDeallocateIPAddress)
                 \<lparr>servers := [(ex_server ''running'')\<lparr>Status := ServerStatusTerminated,
                                                       LastStatusUpdate := 5\<rparr>]\<rparr>)"
    by (simp add: ex_defs ex_fault_defs query_defs)
  have u3: "UpdateServerStatus ServerStatusTerminated (ID (ex_server ''running''))
              (ex_db_fault ''running'' 5 QAppendServerLifecycleLog)
            = (Inr ((ex_server ''running'')\<lparr>Status := ServerStatusTerminated, LastStatusUpdate := 5\<rparr>),
               (ex_db_fault ''running'' 5 QAppendServerLifecycleLog)
                 \<lparr>servers := [(ex_server ''running'')\<lparr>Status := ServerStatusTerminated,
                                                       LastStatusUpdate := 5\<rparr>]\<rparr>)"
    by (simp add: ex_defs ex_fault_defs query_defs)
  have a: "fst (TerminateServer ex_service ''req'' (ex_server ''running'') (ex_db_unbound ''running'' 5))
       = Ret (Inl (AppError ''failed to get IP address by server ID: no rows in result set''))"
    using terminate_releases_address_or_fails [OF valid q u1, of "''req''"]
    by (simp add: ex_defs ex_fault_defs query_defs)
  have b: "fst (TerminateServer ex_service ''req'' (ex_server ''running'')
             (ex_db_fault ''running'' 5 QDeallocateIPAddress))
       = Ret (Inl (AppError ''failed to deallocate IP address: connection lost''))"
    using terminate_releases_address_or_fails [OF valid q u2, of "''req''"]
    by (simp add: ex_defs ex_fault_defs query_defs)
  have c: "map (\<lambda>r. (IpID r, IsAllocated r, ServerID r))
        (ip_addresses (snd (TerminateServer ex_service ''req'' (ex_server ''running'')
                              (ex_db_fault ''running'' 5 QAppendServerLifecycleLog))))
       = [(IpID ex_ip, False, None)]
   \<and> (\<exists>row. fst (TerminateServer ex_service ''req'' (ex_server ''running'')
                     (ex_db_fault ''running'' 5 QAppendServerLifecycleLog)) = Ret (Inr row)
            \<and> Status row = ServerStatusTerminated)"
    using terminate_releases_address_or_fails [OF valid q u3, of "''req''"]
    by (simp add: ex_defs ex_fault_defs query_defs service_defs)
  from valid q a b c show ?thesis by blast
qed

section \<open>C10: the status is written before the address is released\<close>

text \<open>
  C10. Whenever \<open>TerminateServer\<close> returns the error of the address fetch or of the
  deallocation, the store it leaves is the one the status update produced: the server is
  terminated there, nothing is rolled back, and the address rows are as they were.
\<close>

theorem terminate_error_after_status_write:
  assumes "TerminateServer s reqID server d
             = (Ret (Inl (AppError (''failed to get IP address by server ID: '' @ m))), d')
           \<or> TerminateServer s reqID server d
             = (Ret (Inl (AppError (''failed to deallocate IP address: '' @ m))), d')"
  shows "status_of (ID server) d' = Some ServerStatusTerminated
         \<and> d' = snd (UpdateServerStatus ServerStatusTerminated (ID server) d)
         \<and> ip_addresses d' = ip_addresses d"
proof -
  have valid: "IsValidTransition (Status server) ServerStatusTerminated"
    using assms by (auto simp: TerminateServer_def invalid_transition_def split: if_splits)
  have q: "queries s \<noteq> None"
  proof
    assume "queries s = None"
    with assms valid show False by (simp add: TerminateServer_def)
  qed
  obtain r1 d1 where u: "UpdateServerStatus ServerStatusTerminated (ID server) d = (r1, d1)"
    by (cases "UpdateServerStatus ServerStatusTerminated (ID server) d")
  have "\<exists>updated. r1 = Inr updated"
  proof (cases r1)
    case (Inl err)
    with assms valid q u show ?thesis by (auto simp: TerminateServer_def)
  qed simp
  then obtain updated where u': "UpdateServerStatus ServerStatusTerminated (ID server) d = (Inr updated, d1)"
    using u by blast
  note unf = TerminateServer_unfold [OF valid q u', of reqID]
  have "d' = d1"
    using assms unfolding unf
    by (auto simp: Let_def GetServer_not_AppError split: prod.splits sum.splits)
  with UpdateServerStatus_Inr [OF u'] u' show ?thesis by simp
qed

theorem terminate_error_after_status_write_witness:
  "fst (TerminateServer ex_service ''req'' (ex_server ''running'')
          (ex_db_fault ''running'' 5 QDeallocateIPAddress))
     = Ret (Inl (AppError ''failed to deallocate IP address: connection lost''))
   \<and> status_of (ID (ex_server ''running''))
        (snd (TerminateServer ex_service ''req'' (ex_server ''running'')
                (ex_db_fault ''running'' 5 QDeallocateIPAddress)))
       = Some ServerStatusTerminated
   \<and> ip_addresses (snd (TerminateServer ex_service ''req'' (ex_server ''running'')
                          (ex_db_fault ''running'' 5 QDeallocateIPAddress)))
       = [ex_ip]"
proof -
  let ?t = "TerminateServer ex_service ''req'' (ex_server ''running'')
              (ex_db_fault ''running'' 5 QDeallocateIPAddress)"
  have f: "fst ?t = Ret (Inl (AppError ''failed to deallocate IP address: connection lost''))"
    by (simp add: ex_defs ex_fault_defs query_defs service_defs)
  then have "?t = (Ret (Inl (AppError (''failed to get IP address by server ID: '' @ ''connection lost''))), snd ?t)
           \<or> ?t = (Ret (Inl (AppError (''failed to deallocate IP address: '' @ ''connection lost''))), snd ?t)"
    by (simp add: prod_eq_iff)
  note w = terminate_error_after_status_write [OF this]
  have ipd: "ip_addresses (ex_db_fault ''running'' 5 QDeallocateIPAddress) = [ex_ip]"
    by (simp add: ex_db_fault_def ex_db_def)
  have st: "status_of (ID (ex_server ''running'')) (snd ?t) = Some ServerStatusTerminated"
    using w by blast
  have "ip_addresses (snd ?t) = ip_addresses (ex_db_fault ''running'' 5 QDeallocateIPAddress)"
    using w by blast
  from f st this [unfolded ipd] show ?thesis by blast
qed

section \<open>C6: terminating a server that owns no address\<close>

text \<open>
  The claim as stated fails: a running server with no address row cannot be terminated
  without an error.
\<close>

theorem terminate_unbound_server_counterexample:
  "IsValidTransition (Status (ex_server ''running'')) ServerStatusTerminated
   \<and> ip_addresses (ex_db_unbound ''running'' 5) = []
   \<and> fst (TerminateServer ex_service ''req'' (ex_server ''running'') (ex_db_unbound ''running'' 5))
       = Ret (Inl (AppError ''failed to get IP address by server ID: no rows in result set''))"
  by (simp add: ex_defs ex_fault_defs query_defs service_defs)

text \<open>
  C6, amended. For a server in a non-terminal state that owns no address row, the release
  step of termination is not a no-op: the fetch finds no row, and \<open>TerminateServer\<close>
  returns "failed to get IP address by server ID: no rows in result set", after the
  status has been written, leaving the address rows untouched.
\<close>

theorem terminate_without_address_fails:
  assumes valid: "IsValidTransition (Status server) ServerStatusTerminated"
    and q: "queries s \<noteq> None"
    and row: "find_server (ID server) (servers d) \<noteq> None"
    and nf: "db_fault d QUpdateServerStatus = None" "db_fault d QGetIPAddressByServerID = None"
    and unbound: "\<forall>r \<in> set (ip_addresses d). ServerID r \<noteq> Some (ID server)"
  shows "TerminateServer s reqID server d
           = (Ret (Inl (AppError ''failed to get IP address by server ID: no rows in result set'')),
              snd (UpdateServerStatus ServerStatusTerminated (ID server) d))
         \<and> ip_addresses (snd (TerminateServer s reqID server d)) = ip_addresses d"
proof -
  from row obtain r where r: "find_server (ID server) (servers d) = Some r" by blast
  note u = UpdateServerStatus_ok [OF r nf(1), of ServerStatusTerminated]
  note ur = UpdateServerStatus_Inr [OF u]
  have "find (\<lambda>r. ServerID r = Some (ID server)) (ip_addresses d) = None"
    using unbound by (simp add: find_None_iff)
  then have g: "GetIPAddressByServerID (ID server)
                  (snd (UpdateServerStatus ServerStatusTerminated (ID server) d))
                = (Inl ErrNoRows, snd (UpdateServerStatus ServerStatusTerminated (ID server) d))"
    using ur nf(2) by (simp add: GetIPAddressByServerID_def run_query_def u)
  have "TerminateServer s reqID server d
           = (Ret (Inl (AppError ''failed to get IP address by server ID: no rows in result set'')),
              snd (UpdateServerStatus ServerStatusTerminated (ID server) d))"
    unfolding TerminateServer_unfold [OF valid q u] using g
    by (simp add: u ErrNoRows_def)
  with ur show ?thesis by (simp add: u)
qed

theorem terminate_without_address_fails_witness:
  "IsValidTransition (Status (ex_server ''stopped'')) ServerStatusTerminated
   \<and> queries ex_service \<noteq> None
   \<and> find_server (ID (ex_server ''stopped'')) (servers (ex_db_unbound ''stopped'' 5)) \<noteq> None
   \<and> db_fault (ex_db_unbound ''stopped'' 5) QUpdateServerStatus = None
   \<and> db_fault (ex_db_unbound ''stopped'' 5) QGetIPAddressByServerID = None
   \<and> ip_addresses (ex_db_unbound ''stopped'' 5) = []
   \<and> fst (TerminateServer ex_service ''req'' (ex_server ''stopped'') (ex_db_unbound ''stopped'' 5))
       = Ret (Inl (AppError ''failed to get IP address by server ID: no rows in result set''))"
  using terminate_without_address_fails
    [of "ex_server ''stopped''" ex_service "ex_db_unbound ''stopped'' 5" "''req''"]
  by (simp add: ex_defs ex_fault_defs IsValidTransition_def status_defs find_server_def)

section \<open>C2: a failed provisioning leaks no address\<close>

text \<open>
  C2. When the allocator has selected an address and the creation of the server row
  fails, \<open>ProvisionNewServer\<close> returns the error "failed to create server: ..." and
  leaves the store as it found it: the selected address is a free row of the pool
  (not allocated, no owner), and the next allocation selects it again.
\<close>

theorem provision_failure_leaves_address_free:
  assumes sel: "AllocateIP (ipAllocator s) d = (Ret (Inr ip), d1)"
    and q: "queries s \<noteq> None"
    and rej: "CreateNewServer (name @ ''_'' @ IpAddress ip) region ServerStatusProvisioning
                serverType (IpAddress ip)
                (case ServerTypeWisePricing s serverType of Some c \<Rightarrow> c | None \<Rightarrow> 1 / 10) d
              = (Inl e, d2)"
  shows "ProvisionNewServer s reqID name region serverType d
           = (Ret (Inl (AppError (''failed to create server: '' @ error_text e))), d)
         \<and> ip \<in> set (ip_addresses d) \<and> \<not> IsAllocated ip \<and> ServerID ip = None
         \<and> AllocateIP (ipAllocator s) (snd (ProvisionNewServer s reqID name region serverType d))
             = (Ret (Inr ip), d)"
proof -
  from sel have g: "GetAvailableIPForAllocation d = (Inr ip, d1)"
    by (auto simp: AllocateIP_def split: option.splits prod.splits sum.splits)
  note gr = GetAvailableIPForAllocation_Inr [OF g]
  from rej have d2: "d2 = d" by (rule failed_query_keeps_db)
  from q obtain qq where qq: "queries s = Some qq" by blast
  have p: "ProvisionNewServer s reqID name region serverType d
           = (Ret (Inl (AppError (''failed to create server: '' @ error_text e))), d)"
    using sel gr rej d2 qq by (simp add: ProvisionNewServer_def)
  with sel gr show ?thesis by simp
qed

theorem provision_failure_leaves_address_free_witness:
  "queries ex_service \<noteq> None
   \<and> ProvisionNewServer ex_service ''req'' ''web2'' ''us-east-1'' ''t2.micro''
        ((ex_db_fault ''running'' 5 QCreateNewServer)
           \<lparr>ip_addresses := [ex_ip\<lparr>IsAllocated := False, ServerID := None\<rparr>]\<rparr>)
       = (Ret (Inl (AppError ''failed to create server: connection lost'')),
          (ex_db_fault ''running'' 5 QCreateNewServer)
           \<lparr>ip_addresses := [ex_ip\<lparr>IsAllocated := False, ServerID := None\<rparr>]\<rparr>)
   \<and> AllocateIP (ipAllocator ex_service)
        (snd (ProvisionNewServer ex_service ''req'' ''web2'' ''us-east-1'' ''t2.micro''
           ((ex_db_fault ''running'' 5 QCreateNewServer)
              \<lparr>ip_addresses := [ex_ip\<lparr>IsAllocated := False, ServerID := None\<rparr>]\<rparr>)))
       = (Ret (Inr (ex_ip\<lparr>IsAllocated := False, ServerID := None\<rparr>)),
          (ex_db_fault ''running'' 5 QCreateNewServer)
           \<lparr>ip_addresses := [ex_ip\<lparr>IsAllocated := False, ServerID := None\<rparr>]\<rparr>)"
proof -
  let ?d = "(ex_db_fault ''running'' 5 QCreateNewServer)
              \<lparr>ip_addresses := [ex_ip\<lparr>IsAllocated := False, ServerID := None\<rparr>]\<rparr>"
  let ?ip = "ex_ip\<lparr>IsAllocated := False, ServerID := None\<rparr>"
  have sel: "AllocateIP (ipAllocator ex_service) ?d = (Ret (Inr ?ip), ?d)"
    by (simp add: AllocateIP_def GetAvailableIPForAllocation_def run_query_def ex_defs ex_fault_defs)
  have q: "queries ex_service \<noteq> None" by (simp add: ex_defs)
  have rej: "CreateNewServer (''web2'' @ ''_'' @ IpAddress ?ip) ''us-east-1'' ServerStatusProvisioning
                ''t2.micro'' (IpAddress ?ip)
                (case ServerTypeWisePricing ex_service ''t2.micro'' of Some c \<Rightarrow> c | None \<Rightarrow> 1 / 10) ?d
              = (Inl (StoreError ''connection lost''), ?d)"
    by (simp add: CreateNewServer_def run_query_def ex_defs ex_fault_defs)
  from provision_failure_leaves_address_free [OF sel q rej, of "''req''"] q sel
  show ?thesis by simp
qed

section \<open>C3 and C7: the reaper\<close>

subsection \<open>A tick stops at the first running server\<close>

text \<open>
  \<open>processBilling\<close> passes \<open>nil\<close> as the service to \<open>AppendServerLifecycleLogs\<close>, whose
  first statement dereferences it. So the body of the loop panics right after the uptime
  update of the first server listed, and a tick changes no status, no address row and no
  lifecycle log.
\<close>

lemma billing_step_panics:
  "billing_step bd reqID server d
     = (Panic nil_dereference,
        snd (UpdateServerUptime (newUptimeSeconds server (now d)) (ID server) d))"
  by (simp add: billing_step_def Let_def AppendServerLifecycleLogs_nil_service split: prod.splits)

lemma billing_loop_panics:
  "billing_loop bd reqID (server # rest) d
     = (Panic nil_dereference,
        snd (UpdateServerUptime (newUptimeSeconds server (now d)) (ID server) d))"
  by (simp add: billing_step_panics)

lemma UpdateServerUptime_frame:
  assumes "UpdateServerUptime n i d = (r, d')"
  shows "ip_addresses d' = ip_addresses d \<and> status_of j d' = status_of j d
     \<and> logs_of j d' = logs_of j d"
proof (cases "db_fault d QUpdateServerUptime = None \<and> find_server i (servers d) \<noteq> None")
  case True
  then have d': "d' = d\<lparr>servers := update_server i
                   (\<lambda>r. r\<lparr>UptimeSeconds := n, UpdatedAt := now d\<rparr>) (servers d)\<rparr>"
    using assms by (auto simp: UpdateServerUptime_def run_query_def)
  have "logs_of j d' = logs_of j d"
    unfolding d' by (cases "find_server j (servers d)") (simp_all add: logs_of_def find_server_update)
  then show ?thesis
    by (simp add: d' status_of_update_server)
next
  case False
  then have "d' = d"
    using assms by (auto simp: UpdateServerUptime_def run_query_def split: option.splits)
  then show ?thesis by simp
qed

lemma processBilling_keeps_status_and_pool:
  "ip_addresses (snd (processBilling bd reqID d)) = ip_addresses d
   \<and> status_of j (snd (processBilling bd reqID d)) = status_of j d
   \<and> logs_of j (snd (processBilling bd reqID d)) = logs_of j d"
proof (cases "bd_queries bd")
  case None
  then show ?thesis by (simp add: processBilling_def)
next
  case (Some q)
  obtain r d1 where l: "ListServers ServerStatusRunning d = (r, d1)"
    by (cases "ListServers ServerStatusRunning d")
  then have d1: "d1 = d"
    by (auto simp: ListServers_def run_query_def split: option.splits)
  show ?thesis
  proof (cases r)
    case (Inl e)
    with Some l d1 show ?thesis by (simp add: processBilling_def)
  next
    case (Inr running)
    show ?thesis
    proof (cases running)
      case Nil
      with Some l d1 Inr show ?thesis by (simp add: processBilling_def)
    next
      case (Cons server rest)
      obtain ru du where u: "UpdateServerUptime (newUptimeSeconds server (now d)) (ID server) d = (ru, du)"
        by (cases "UpdateServerUptime (newUptimeSeconds server (now d)) (ID server) d")
      from UpdateServerUptime_frame [OF u, of j] Some l d1 Inr Cons u show ?thesis
        by (simp add: processBilling_def billing_loop_panics del: billing_loop.simps)
    qed
  qed
qed

text \<open>
  C3, at a failing input. One running server whose last status update is 1801 seconds
  old, with a bound address: the new cumulative uptime is 1801, over the threshold, and
  the tick panics; the server is still running, its address is still allocated to it, and
  no timeout entry is in its log.
\<close>

theorem reaper_tick_panics_before_terminating:
  "newUptimeSeconds (ex_server ''running'') 1801000000000 = 1801
   \<and> IsAllocated ex_ip \<and> ServerID ex_ip = Some (ID (ex_server ''running''))
   \<and> fst (processBilling ex_daemon ''req'' (ex_db ''running'' 1801000000000))
       = Panic nil_dereference
   \<and> status_of (ID (ex_server ''running''))
        (snd (processBilling ex_daemon ''req'' (ex_db ''running'' 1801000000000)))
       = Some ServerStatusRunning
   \<and> ip_addresses (snd (processBilling ex_daemon ''req'' (ex_db ''running'' 1801000000000)))
       = [ex_ip]
   \<and> logs_of (ID (ex_server ''running''))
        (snd (processBilling ex_daemon ''req'' (ex_db ''running'' 1801000000000)))
       = Some []"
proof -
  have n: "newUptimeSeconds (ex_server ''running'') 1801000000000 = 1801"
    by (simp add: newUptimeSeconds_def time_Since_def ex_server_def)
  have l: "ListServers ServerStatusRunning (ex_db ''running'' 1801000000000)
             = (Inr [ex_server ''running''], ex_db ''running'' 1801000000000)"
    by (simp add: ListServers_def run_query_def ex_defs status_defs)
  have bq: "bd_queries ex_daemon = Some Queries"
    by (simp add: ex_defs)
  have p: "fst (processBilling ex_daemon ''req'' (ex_db ''running'' 1801000000000))
             = Panic nil_dereference"
    by (simp add: processBilling_def bq l billing_loop_panics del: billing_loop.simps)
  have s0: "status_of (ID (ex_server ''running'')) (ex_db ''running'' 1801000000000)
              = Some ServerStatusRunning"
    and l0: "logs_of (ID (ex_server ''running'')) (ex_db ''running'' 1801000000000) = Some []"
    and i0: "ip_addresses (ex_db ''running'' 1801000000000) = [ex_ip]"
    by (simp_all add: status_of_def logs_of_def find_server_def ex_db_def ex_server_def status_defs)
  have e: "IsAllocated ex_ip \<and> ServerID ex_ip = Some (ID (ex_server ''running''))"
    by (simp add: ex_defs)
  from processBilling_keeps_status_and_pool
         [of ex_daemon "''req''" "ex_db ''running'' 1801000000000" "ID (ex_server ''running'')"]
       n p s0 l0 i0 e
  show ?thesis by simp
qed

text \<open>
  C7, at a failing input. The comparison in the code is strict (\<open>1800 <s newUptime\<close>),
  but it is never evaluated: a running server whose new cumulative uptime is 1801 is
  still running after the tick, which panics once the uptime is stored.
\<close>

theorem reaper_threshold_not_reached:
  "newUptimeSeconds ((ex_server ''running'')\<lparr>UptimeSeconds := 600\<rparr>) 1201000000000 = 1801
   \<and> (1800 :: 64 word) <s 1801
   \<and> fst (processBilling ex_daemon ''req'' (ex_db_uptime 600 1201000000000))
       = Panic nil_dereference
   \<and> status_of (ID (ex_server ''running''))
        (snd (processBilling ex_daemon ''req'' (ex_db_uptime 600 1201000000000)))
       = Some ServerStatusRunning
   \<and> map UptimeSeconds (servers (snd (processBilling ex_daemon ''req'' (ex_db_uptime 600 1201000000000))))
       = [1801]"
proof -
  let ?srv = "(ex_server ''running'')\<lparr>UptimeSeconds := 600\<rparr>"
  let ?d = "ex_db_uptime 600 1201000000000"
  have n: "newUptimeSeconds ?srv 1201000000000 = 1801"
    by (simp add: newUptimeSeconds_def time_Since_def ex_server_def)
  have c: "(1800 :: 64 word) <s 1801"
    by (simp add: word_sless_alt)
  have l: "ListServers ServerStatusRunning ?d = (Inr [?srv], ?d)"
    by (simp add: ListServers_def run_query_def ex_db_uptime_def ex_defs status_defs)
  have bq: "bd_queries ex_daemon = Some Queries"
    by (simp add: ex_defs)
  have nw: "now ?d = 1201000000000"
    by (simp add: ex_db_uptime_def ex_db_def)
  have p: "processBilling ex_daemon ''req'' ?d
             = (Panic nil_dereference, snd (UpdateServerUptime 1801 (ID ?srv) ?d))"
    by (simp add: processBilling_def bq l billing_loop_panics nw n del: billing_loop.simps)
  have u: "map UptimeSeconds (servers (snd (UpdateServerUptime 1801 (ID ?srv) ?d))) = [1801]"
    by (simp add: UpdateServerUptime_def run_query_def find_server_def update_server_def
          ex_db_uptime_def ex_defs)
  have s0: "status_of (ID (ex_server ''running'')) ?d = Some ServerStatusRunning"
    by (simp add: status_of_def find_server_def ex_db_uptime_def ex_db_def ex_server_def status_defs)
  from processBilling_keeps_status_and_pool [of ex_daemon "''req''" ?d "ID (ex_server ''running'')"]
  have "status_of (ID (ex_server ''running'')) (snd (processBilling ex_daemon ''req'' ?d))
          = Some ServerStatusRunning"
    using s0 by simp
  with n c p u show ?thesis by simp
qed

section \<open>C8: pool initialisation\<close>

subsection \<open>The block of a prefix is an interval\<close>

lemma word_xor_eq_0_iff: "(x :: 32 word) XOR y = 0 \<longleftrightarrow> x = y"
  by (metis bit.xor_self xor.left_neutral bit.xor_left_self)

lemma Contains_iff_div:
  "Prefix_Contains pfx (Addr4 a)
     \<longleftrightarrow> unat a div 2 ^ (32 - prefix_Bits pfx) = unat (prefix_Addr pfx) div 2 ^ (32 - prefix_Bits pfx)"
proof -
  let ?n = "32 - prefix_Bits pfx"
  have "Prefix_Contains pfx (Addr4 a) \<longleftrightarrow> drop_bit ?n a = drop_bit ?n (prefix_Addr pfx)"
    by (simp add: word_xor_eq_0_iff)
  also have "\<dots> \<longleftrightarrow> unat (drop_bit ?n a) = unat (drop_bit ?n (prefix_Addr pfx))"
    by (simp add: word_unat_eq_iff)
  also have "\<dots> \<longleftrightarrow> unat a div 2 ^ ?n = unat (prefix_Addr pfx) div 2 ^ ?n"
    by (simp only: unat_drop_bit_eq drop_bit_eq_div [where 'a = nat])
  finally show ?thesis .
qed

lemma Contains_self: "Prefix_Contains pfx (Addr4 (prefix_Addr pfx))"
  by simp

declare Prefix_Contains.simps(2) [simp del]

lemma Contains_convex:
  assumes "Prefix_Contains pfx (Addr4 a)" "Prefix_Contains pfx (Addr4 b)" "a \<le> c" "c \<le> b"
  shows "Prefix_Contains pfx (Addr4 c)"
proof -
  let ?k = "(2::nat) ^ (32 - prefix_Bits pfx)"
  have "unat a div ?k \<le> unat c div ?k" "unat c div ?k \<le> unat b div ?k"
    using assms(3,4) by (simp_all add: word_le_nat_alt div_le_mono)
  with assms(1,2) show ?thesis by (simp add: Contains_iff_div)
qed

lemma canonical_least:
  assumes "take_bit (32 - prefix_Bits pfx) (prefix_Addr pfx) = 0"
    and "Prefix_Contains pfx (Addr4 b)"
  shows "prefix_Addr pfx \<le> b"
proof -
  let ?n = "32 - prefix_Bits pfx"
  have "unat (take_bit ?n (prefix_Addr pfx)) = 0" using assms(1) by (simp only: unsigned_0)
  then have m: "unat (prefix_Addr pfx) mod 2 ^ ?n = 0"
    by (simp only: unsigned_take_bit_eq take_bit_eq_mod [where 'a = nat])
  have "unat (prefix_Addr pfx) = 2 ^ ?n * (unat (prefix_Addr pfx) div 2 ^ ?n)"
    using m by (metis add.right_neutral mult_div_mod_eq)
  also have "\<dots> = 2 ^ ?n * (unat b div 2 ^ ?n)"
    using assms(2) by (simp add: Contains_iff_div)
  also have "\<dots> \<le> unat b" by simp
  finally show ?thesis by (simp add: word_le_nat_alt)
qed

lemma word_succ_le_iff:
  assumes "(a :: 32 word) + 1 \<noteq> 0"
  shows "a \<le> b \<longleftrightarrow> b = a \<or> a + 1 \<le> b"
proof -
  have "unat (a + 1) = Suc (unat a)"
    using unatSuc [of a] assms by (simp add: add.commute)
  then show ?thesis
    by (auto simp: word_le_nat_alt word_unat_eq_iff)
qed

lemma word_max_le_iff:
  assumes "(a :: 32 word) + 1 = 0"
  shows "a \<le> b \<longleftrightarrow> b = a"
proof -
  from assms have "a = - 1" by (simp add: eq_neg_iff_add_eq_0)
  then show ?thesis by (auto simp: word_order.extremum_unique)
qed

lemma upward_block_step:
  assumes "Prefix_Contains pfx (Addr4 a)"
  shows "upward_block pfx (Addr4 a) = insert a (upward_block pfx (Addr_Next a))"
proof (cases "a + 1 = 0")
  case True
  with assms show ?thesis
    by (auto simp: Addr_Next_def word_max_le_iff)
next
  case False
  show ?thesis
  proof (cases "Prefix_Contains pfx (Addr4 (a + 1))")
    case True
    with assms False show ?thesis
      by (auto simp: Addr_Next_def word_succ_le_iff [OF False])
  next
    case nc: False
    have "b = a" if "a \<le> b" "Prefix_Contains pfx (Addr4 b)" for b
    proof (rule ccontr)
      assume "b \<noteq> a"
      with that(1) have "a + 1 \<le> b" using word_succ_le_iff [OF False] by blast
      moreover have "a \<le> a + 1" using word_succ_le_iff [OF False, of "a + 1"] by simp
      ultimately have "Prefix_Contains pfx (Addr4 (a + 1))"
        using Contains_convex [OF assms that(2)] by blast
      with nc show False by blast
    qed
    with assms False nc show ?thesis
      by (auto simp: Addr_Next_def)
  qed
qed

subsection \<open>The population loop\<close>

lemma CreateIPAddress_pool:
  assumes "db_fault d QCreateIPAddress = None" and "CreateIPAddress address d = (r, d')"
  shows "pool_addresses d' = insert address (pool_addresses d)
     \<and> db_fault d' = db_fault d \<and> servers d' = servers d"
proof (cases "address \<in> set (map IpAddress (ip_addresses d))")
  case True
  with assms have "d' = d"
    by (simp add: CreateIPAddress_def run_query_def)
  with True show ?thesis by (auto simp: pool_addresses_def)
next
  case False
  with assms have "d' = d\<lparr>ip_addresses := ip_addresses d @
         [\<lparr>IpID = next_uuid d, IpAddress = address, IsAllocated = False,
           ServerID = None, IpCreatedAt = now d, IpUpdatedAt = now d\<rparr>],
       next_uuid := Suc (next_uuid d)\<rparr>"
    by (simp add: CreateIPAddress_def run_query_def Let_def)
  then show ?thesis by (simp add: pool_addresses_def)
qed

lemma populate_body_pool:
  assumes "db_fault d QCreateIPAddress = None" and "populate_body pfx excl a count d = (c', d')"
  shows "pool_addresses d'
           = pool_addresses d \<union> (if excl a \<or> a = prefix_Addr pfx then {} else {Addr_String a})
     \<and> db_fault d' = db_fault d \<and> servers d' = servers d"
proof (cases "excl a \<or> a = prefix_Addr pfx")
  case True
  with assms(2) show ?thesis by (auto simp: populate_body_def)
next
  case False
  obtain r d1 where c: "CreateIPAddress (Addr_String a) d = (r, d1)"
    by (cases "CreateIPAddress (Addr_String a) d")
  with False assms(2) have "d' = d1"
    by (cases r) (simp_all add: populate_body_def)
  with CreateIPAddress_pool [OF assms(1) c] False show ?thesis by simp
qed

lemma populate_pool:
  "db_fault d QCreateIPAddress = None \<Longrightarrow>
   pool_addresses (snd (populate pfx excl A count d))
     = pool_addresses d
       \<union> Addr_String ` {b \<in> upward_block pfx A. \<not> excl b \<and> b \<noteq> prefix_Addr pfx}
   \<and> servers (snd (populate pfx excl A count d)) = servers d"
proof (induction pfx excl A count d rule: populate.induct)
  case (1 pfx exclude count d)
  then show ?case by (simp add: populate.simps)
next
  case (2 pfx exclude a count d)
  show ?case
  proof (cases "Prefix_Contains pfx (Addr4 a)")
    case False
    then show ?thesis by (simp add: populate.simps)
  next
    case True
    obtain c1 d1 where b: "populate_body pfx exclude a count d = (c1, d1)"
      by (cases "populate_body pfx exclude a count d")
    note pb = populate_body_pool [OF "2.prems" b]
    from pb have nf: "db_fault d1 QCreateIPAddress = None" using "2.prems" by simp
    have ih: "pool_addresses (snd (populate pfx exclude (Addr_Next a) c1 d1))
                = pool_addresses d1
                  \<union> Addr_String ` {b \<in> upward_block pfx (Addr_Next a). \<not> exclude b \<and> b \<noteq> prefix_Addr pfx}
              \<and> servers (snd (populate pfx exclude (Addr_Next a) c1 d1)) = servers d1"
      using "2.IH" [OF _ b [symmetric] nf] True by simp
    have p: "populate pfx exclude (Addr4 a) count d = populate pfx exclude (Addr_Next a) c1 d1"
      using True b by (simp add: populate.simps)
    have "{b \<in> upward_block pfx (Addr4 a). \<not> exclude b \<and> b \<noteq> prefix_Addr pfx}
            = (if exclude a \<or> a = prefix_Addr pfx then {} else {a})
              \<union> {b \<in> upward_block pfx (Addr_Next a). \<not> exclude b \<and> b \<noteq> prefix_Addr pfx}"
      unfolding upward_block_step [OF True] by auto
    then have "Addr_String ` {b \<in> upward_block pfx (Addr4 a). \<not> exclude b \<and> b \<noteq> prefix_Addr pfx}
            = (if exclude a \<or> a = prefix_Addr pfx then {} else {Addr_String a})
              \<union> Addr_String ` {b \<in> upward_block pfx (Addr_Next a). \<not> exclude b \<and> b \<noteq> prefix_Addr pfx}"
      by (simp add: image_Un)
    with ih pb show ?thesis
      unfolding p by (simp add: Un_assoc)
  qed
qed

lemma build_exclude_iff:
  "build_exclude ParseAddr exclusionList exclude a
     \<longleftrightarrow> exclude a \<or> a \<in> excluded ParseAddr exclusionList"
  by (induction exclusionList arbitrary: exclude)
     (auto simp: excluded_def map_filter_simps split: option.splits)

lemma TerminateAllServers_returns:
  assumes q: "ipa_queries ipa \<noteq> None"
    and parse: "ParsePrefix cidr = Inr pfx"
    and nf: "db_fault d QTerminateAllServers = None" "db_fault d QTruncateIPAddresses = None"
            "db_fault d QCreateIPAddress = None"
  shows "fst (TerminateAllServers Quote ParsePrefix ParseAddr ipa cidr exclusionList d) = StartupReturn None
     \<and> pool_addresses (snd (TerminateAllServers Quote ParsePrefix ParseAddr ipa cidr exclusionList d))
         = Addr_String ` {b. prefix_Addr pfx \<le> b \<and> Prefix_Contains pfx (Addr4 b)
                             \<and> b \<noteq> prefix_Addr pfx \<and> b \<notin> excluded ParseAddr exclusionList}"
proof -
  from q obtain qq where qq: "ipa_queries ipa = Some qq" by blast
  let ?d1 = "d\<lparr>servers := map (\<lambda>r. if Status r \<noteq> ''terminated''
                                then r\<lparr>Status := ''terminated'', LastStatusUpdate := now d,
                                       LifecycleLogs := LifecycleLogs r @ [system_reset_entry (now d)]\<rparr>
                                else r) (servers d)\<rparr>"
  let ?d2 = "?d1\<lparr>ip_addresses := []\<rparr>"
  let ?ex = "build_exclude ParseAddr exclusionList (\<lambda>_. False)"
  have t1: "TerminateAllServers_query d = (None, ?d1)"
    using nf(1) by (simp add: TerminateAllServers_query_def run_query_def)
  have t2: "TruncateIPAddresses ?d1 = (None, ?d2)"
    using nf(2) by (simp add: TruncateIPAddresses_def run_query_def)
  have nf2: "db_fault ?d2 QCreateIPAddress = None" using nf(3) by simp
  obtain count d3 where p: "populate pfx ?ex (Addr4 (prefix_Addr pfx)) 0 ?d2 = (count, d3)"
    by (cases "populate pfx ?ex (Addr4 (prefix_Addr pfx)) 0 ?d2")
  have r: "TerminateAllServers Quote ParsePrefix ParseAddr ipa cidr exclusionList d = (StartupReturn None, d3)"
    by (simp add: TerminateAllServers_def qq t1 t2 parse p schema_missing_def)
  have "pool_addresses d3
          = pool_addresses ?d2
            \<union> Addr_String ` {b \<in> upward_block pfx (Addr4 (prefix_Addr pfx)). \<not> ?ex b \<and> b \<noteq> prefix_Addr pfx}"
    using populate_pool [OF nf2, of pfx ?ex "Addr4 (prefix_Addr pfx)" 0] p by simp
  also have "pool_addresses ?d2 = {}" by (simp add: pool_addresses_def)
  also have "{b \<in> upward_block pfx (Addr4 (prefix_Addr pfx)). \<not> ?ex b \<and> b \<noteq> prefix_Addr pfx}
          = {b. prefix_Addr pfx \<le> b \<and> Prefix_Contains pfx (Addr4 b)
                             \<and> b \<noteq> prefix_Addr pfx \<and> b \<notin> excluded ParseAddr exclusionList}"
    by (auto simp: Contains_self build_exclude_iff)
  finally show ?thesis by (simp add: r)
qed

subsection \<open>The text of an address determines the address\<close>

lemma digit_of_char: "k < 10 \<Longrightarrow> of_char (char_of (48 + k :: nat)) = 48 + k"
  by (simp add: of_char_of)

lemma digit_inj: "j < 10 \<Longrightarrow> k < 10 \<Longrightarrow> char_of (48 + j :: nat) = char_of (48 + k :: nat) \<Longrightarrow> j = k"
proof -
  assume "j < 10" "k < 10" "char_of (48 + j :: nat) = char_of (48 + k :: nat)"
  then have "(of_char (char_of (48 + j :: nat)) :: nat) = of_char (char_of (48 + k :: nat))"
    by simp
  with \<open>j < 10\<close> \<open>k < 10\<close> show "j = k" by (simp add: digit_of_char)
qed

lemma digit_not_dot: "k < 10 \<Longrightarrow> char_of (48 + k :: nat) \<noteq> CHR ''.''"
proof
  assume "k < 10" "char_of (48 + k :: nat) = CHR ''.''"
  then have "(of_char (char_of (48 + k :: nat)) :: nat) = of_char CHR ''.''" by simp
  with \<open>k < 10\<close> show False by (simp add: digit_of_char)
qed

lemma show_nat_small: "n < 10 \<Longrightarrow> show_nat n = [char_of (48 + n)]"
  by (subst show_nat.simps) simp

lemma show_nat_big:
  "\<not> n < 10 \<Longrightarrow> show_nat n = show_nat (n div 10) @ [char_of (48 + n mod 10)]"
  by (subst show_nat.simps) simp

lemma show_nat_not_Nil: "show_nat n \<noteq> []"
  by (cases "n < 10") (simp_all add: show_nat_small show_nat_big)

lemma show_nat_no_dot: "CHR ''.'' \<notin> set (show_nat n)"
proof (induction n rule: show_nat.induct)
  case (1 n)
  show ?case
  proof (cases "n < 10")
    case True
    then show ?thesis using digit_not_dot [of n] by (auto simp: show_nat_small)
  next
    case False
    have "n mod 10 < 10" by simp
    then have "char_of (48 + n mod 10) \<noteq> CHR ''.''" by (rule digit_not_dot)
    with False "1.IH" show ?thesis by (auto simp: show_nat_big)
  qed
qed

lemma show_nat_inj: "show_nat m = show_nat n \<Longrightarrow> m = n"
proof (induction m arbitrary: n rule: show_nat.induct)
  case (1 m)
  show ?case
  proof (cases "m < 10")
    case m: True
    show ?thesis
    proof (cases "n < 10")
      case True
      with m "1.prems" show ?thesis
        by (simp add: show_nat_small digit_inj)
    next
      case False
      from "1.prems" have "[char_of (48 + m)] = show_nat (n div 10) @ [char_of (48 + n mod 10)]"
        by (simp only: show_nat_small [OF m] show_nat_big [OF False])
      then have "show_nat (n div 10) = []" by simp
      then show ?thesis by (simp add: show_nat_not_Nil)
    qed
  next
    case m: False
    show ?thesis
    proof (cases "n < 10")
      case True
      from "1.prems" have "show_nat (m div 10) @ [char_of (48 + m mod 10)] = [char_of (48 + n)]"
        by (simp only: show_nat_small [OF True] show_nat_big [OF m])
      then have "show_nat (m div 10) = []" by simp
      then show ?thesis by (simp add: show_nat_not_Nil)
    next
      case False
      from "1.prems"
      have "show_nat (m div 10) @ [char_of (48 + m mod 10)]
              = show_nat (n div 10) @ [char_of (48 + n mod 10)]"
        by (simp only: show_nat_big [OF False] show_nat_big [OF m])
      then have e: "show_nat (m div 10) = show_nat (n div 10)"
        and d: "char_of (48 + m mod 10) = char_of (48 + n mod 10)"
        by simp_all
      have "m div 10 = n div 10" using "1.IH" [OF m e] .
      moreover have "m mod 10 = n mod 10" using d by (intro digit_inj) simp_all
      ultimately show ?thesis by (metis div_mult_mod_eq)
    qed
  qed
qed

lemma dotted_split:
  "CHR ''.'' \<notin> set xs \<Longrightarrow> CHR ''.'' \<notin> set ys \<Longrightarrow> xs @ CHR ''.'' # r = ys @ CHR ''.'' # r'
     \<Longrightarrow> xs = ys \<and> r = r'"
proof (induction xs arbitrary: ys)
  case Nil
  then show ?case by (cases ys) auto
next
  case (Cons x xs)
  then show ?case by (cases ys) auto
qed

lemma bytes_eq:
  fixes x y :: nat
  assumes "x mod 256 = y mod 256" "x div 256 mod 256 = y div 256 mod 256"
    "x div 65536 mod 256 = y div 65536 mod 256" "x div 16777216 mod 256 = y div 16777216 mod 256"
    "x < 4294967296" "y < 4294967296"
  shows "x = y"
proof -
  have s: "a = b" if "a mod 256 = b mod 256" "a div 256 = b div 256" for a b :: nat
    using that by (metis div_mult_mod_eq)
  have top: "z div 16777216 mod 256 = z div 16777216" if "z < 4294967296" for z :: nat
  proof -
    from that have "z < 256 * 16777216" by simp
    then have "z div 16777216 < 256" by (rule less_mult_imp_div_less)
    then show ?thesis by (rule mod_less)
  qed
  have c2: "z div 65536 div 256 = z div 16777216" for z :: nat
    using div_mult2_eq [of z 65536 256] by simp
  have c1: "z div 256 div 256 = z div 65536" for z :: nat
    using div_mult2_eq [of z 256 256] by simp
  have d3: "x div 16777216 = y div 16777216"
    using assms(4) top [OF assms(5)] top [OF assms(6)] by (simp only:)
  then have "x div 65536 div 256 = y div 65536 div 256"
    by (simp only: c2)
  with assms(3) have d2: "x div 65536 = y div 65536" by (rule s)
  then have "x div 256 div 256 = y div 256 div 256"
    by (simp only: c1)
  with assms(2) have d1: "x div 256 = y div 256" by (rule s)
  with assms(1) show ?thesis by (rule s)
qed

lemma Addr_String_inj: "Addr_String a = Addr_String b \<Longrightarrow> a = b"
proof -
  assume e: "Addr_String a = Addr_String b"
  let ?a3 = "show_nat (unat (drop_bit 24 a) mod 256)" and ?b3 = "show_nat (unat (drop_bit 24 b) mod 256)"
  let ?a2 = "show_nat (unat (drop_bit 16 a) mod 256)" and ?b2 = "show_nat (unat (drop_bit 16 b) mod 256)"
  let ?a1 = "show_nat (unat (drop_bit 8 a) mod 256)" and ?b1 = "show_nat (unat (drop_bit 8 b) mod 256)"
  let ?a0 = "show_nat (unat a mod 256)" and ?b0 = "show_nat (unat b mod 256)"
  note nd = show_nat_no_dot
  from e have "?a3 @ CHR ''.'' # (?a2 @ CHR ''.'' # (?a1 @ CHR ''.'' # ?a0))
             = ?b3 @ CHR ''.'' # (?b2 @ CHR ''.'' # (?b1 @ CHR ''.'' # ?b0))"
    by (simp only: Addr_String_def append.simps)
  from dotted_split [OF nd nd this]
  have 3: "?a3 = ?b3" and r2: "?a2 @ CHR ''.'' # (?a1 @ CHR ''.'' # ?a0) = ?b2 @ CHR ''.'' # (?b1 @ CHR ''.'' # ?b0)"
    by blast+
  from dotted_split [OF nd nd r2]
  have 2: "?a2 = ?b2" and r1: "?a1 @ CHR ''.'' # ?a0 = ?b1 @ CHR ''.'' # ?b0"
    by blast+
  from dotted_split [OF nd nd r1]
  have 1: "?a1 = ?b1" and 0: "?a0 = ?b0"
    by blast+
  have u: "unat (drop_bit n w) = unat w div 2 ^ n" for n and w :: "32 word"
    by (simp only: unat_drop_bit_eq drop_bit_eq_div [where 'a = nat])
  have lt: "unat w < 4294967296" for w :: "32 word"
    using unsigned_less [of w, where 'a = nat] by simp
  have p: "(2::nat) ^ 24 = 16777216" "(2::nat) ^ 16 = 65536" "(2::nat) ^ 8 = 256"
    by simp_all
  have "unat a = unat b"
  proof (rule bytes_eq)
    show "unat a mod 256 = unat b mod 256" using show_nat_inj [OF 0] .
    show "unat a div 256 mod 256 = unat b div 256 mod 256"
      using show_nat_inj [OF 1] by (simp only: u p)
    show "unat a div 65536 mod 256 = unat b div 65536 mod 256"
      using show_nat_inj [OF 2] by (simp only: u p)
    show "unat a div 16777216 mod 256 = unat b div 16777216 mod 256"
      using show_nat_inj [OF 3] by (simp only: u p)
  qed (rule lt)+
  then show "a = b" by (simp only: word_unat_eq_iff)
qed

subsection \<open>The pool after initialisation\<close>

lemma char_of_digit_vals:
  "char_of (48::nat) = CHR ''0''" "char_of (49::nat) = CHR ''1''" "char_of (53::nat) = CHR ''5''"
  "char_of (54::nat) = CHR ''6''" "char_of (55::nat) = CHR ''7''"
  using char_of_char [of "CHR ''0''", where 'a = nat] char_of_char [of "CHR ''1''", where 'a = nat]
    char_of_char [of "CHR ''5''", where 'a = nat] char_of_char [of "CHR ''6''", where 'a = nat]
    char_of_char [of "CHR ''7''", where 'a = nat]
  by simp_all

lemma Addr_String_examples:
  "Addr_String 0x0A000005 = ''10.0.0.5''" "Addr_String 0x0A000006 = ''10.0.0.6''"
  "Addr_String 0x0A000007 = ''10.0.0.7''"
  by (simp_all add: Addr_String_def show_nat_small show_nat_big drop_bit_eq_div char_of_digit_vals)

lemma pool_member_iff:
  assumes q: "ipa_queries ipa \<noteq> None"
    and parse: "ParsePrefix cidr = Inr pfx"
    and nf: "db_fault d QTerminateAllServers = None" "db_fault d QTruncateIPAddresses = None"
            "db_fault d QCreateIPAddress = None"
  shows "Addr_String a
           \<in> pool_addresses (snd (TerminateAllServers Quote ParsePrefix ParseAddr ipa cidr exclusionList d))
         \<longleftrightarrow> Prefix_Contains pfx (Addr4 a) \<and> prefix_Addr pfx < a
             \<and> a \<notin> excluded ParseAddr exclusionList"
proof -
  let ?pool = "pool_addresses (snd (TerminateAllServers Quote ParsePrefix ParseAddr ipa cidr exclusionList d))"
  have "fst (TerminateAllServers Quote ParsePrefix ParseAddr ipa cidr exclusionList d) = StartupReturn None
     \<and> ?pool = Addr_String ` {b. prefix_Addr pfx \<le> b \<and> Prefix_Contains pfx (Addr4 b)
                             \<and> b \<noteq> prefix_Addr pfx \<and> b \<notin> excluded ParseAddr exclusionList}"
    using q parse nf by (rule TerminateAllServers_returns)
  then have pool: "?pool = Addr_String ` {b. prefix_Addr pfx \<le> b \<and> Prefix_Contains pfx (Addr4 b)
                             \<and> b \<noteq> prefix_Addr pfx \<and> b \<notin> excluded ParseAddr exclusionList}"
    by blast
  show ?thesis unfolding pool by (auto dest: Addr_String_inj)
qed

text \<open>
  For a CIDR written with the base address of its block, initialisation with every
  statement taken by the store returns without error and leaves in the pool exactly the
  addresses of the block that are neither the base address nor in the exclusion list.
\<close>

lemma pool_of_canonical_cidr:
  assumes q: "ipa_queries ipa \<noteq> None"
    and parse: "ParsePrefix cidr = Inr pfx"
    and canon: "take_bit (32 - prefix_Bits pfx) (prefix_Addr pfx) = 0"
    and nf: "db_fault d QTerminateAllServers = None" "db_fault d QTruncateIPAddresses = None"
            "db_fault d QCreateIPAddress = None"
  shows "fst (TerminateAllServers Quote ParsePrefix ParseAddr ipa cidr exclusionList d)
           = StartupReturn None
     \<and> pool_addresses (snd (TerminateAllServers Quote ParsePrefix ParseAddr ipa cidr exclusionList d))
         \<subseteq> range Addr_String
     \<and> (\<forall>a. Addr_String a
               \<in> pool_addresses (snd (TerminateAllServers Quote ParsePrefix ParseAddr ipa cidr
                                        exclusionList d))
             \<longleftrightarrow> Prefix_Contains pfx (Addr4 a) \<and> a \<noteq> prefix_Addr pfx
                 \<and> a \<notin> excluded ParseAddr exclusionList)"
proof -
  let ?pool = "pool_addresses (snd (TerminateAllServers Quote ParsePrefix ParseAddr ipa cidr
                                      exclusionList d))"
  have r: "fst (TerminateAllServers Quote ParsePrefix ParseAddr ipa cidr exclusionList d)
             = StartupReturn None
     \<and> ?pool = Addr_String ` {b. prefix_Addr pfx \<le> b \<and> Prefix_Contains pfx (Addr4 b)
                             \<and> b \<noteq> prefix_Addr pfx \<and> b \<notin> excluded ParseAddr exclusionList}"
    using q parse nf by (rule TerminateAllServers_returns)
  have m: "Addr_String a \<in> ?pool
             \<longleftrightarrow> Prefix_Contains pfx (Addr4 a) \<and> prefix_Addr pfx < a
                 \<and> a \<notin> excluded ParseAddr exclusionList" for a
    using q parse nf by (rule pool_member_iff)
  have c: "Addr_String a \<in> ?pool
             \<longleftrightarrow> Prefix_Contains pfx (Addr4 a) \<and> a \<noteq> prefix_Addr pfx
                 \<and> a \<notin> excluded ParseAddr exclusionList" for a
    using canonical_least [OF canon, of a] by (auto simp: m)
  have "?pool \<subseteq> range Addr_String" using r by blast
  with r c show ?thesis by blast
qed

lemma pool_of_canonical_cidr_example:
  "fst (TerminateAllServers ex_Quote ex_ParsePrefix ex_ParseAddr (NewIPAllocator (Some Queries))
             ''10.0.0.4/30'' [''10.0.0.6'', ''junk''] (ex_db ''running'' 5)) = StartupReturn None
   \<and> map IpAddress (ip_addresses (snd (TerminateAllServers ex_Quote ex_ParsePrefix ex_ParseAddr
               (NewIPAllocator (Some Queries)) ''10.0.0.4/30'' [''10.0.0.6'', ''junk'']
               (ex_db ''running'' 5))))
       = [''10.0.0.5'', ''10.0.0.7'']"
  by (simp add: TerminateAllServers_def NewIPAllocator_def TerminateAllServers_query_def
        TruncateIPAddresses_def run_query_def ex_defs schema_missing_def ex_ParsePrefix_def
        ex_ParseAddr_def populate.simps populate_body_def Prefix_Contains.simps Addr_Next_def
        CreateIPAddress_def Addr_String_examples Let_def)

text \<open>
  C8, at a failing input. The population loop starts at the address of the prefix and
  skips the address equal to it, as the base address of the block; but \<open>ParsePrefix\<close>
  keeps the address as it was written, and the code does not mask it. On "10.0.0.5/30"
  with an empty exclusion list (block 10.0.0.4 to 10.0.0.7, base 10.0.0.4) the address
  10.0.0.5 is in the block, is not the base and is not excluded, yet the routine returns
  without error with only 10.0.0.6 and 10.0.0.7 in the pool. On "10.0.0.7/30" it returns
  without error with an empty pool.
\<close>

theorem pool_init_drops_block_addresses:
  "ex_ParsePrefix ''10.0.0.5/30'' = Inr \<lparr>prefix_Addr = 0x0A000005, prefix_Bits = 30\<rparr>
   \<and> Prefix_Contains \<lparr>prefix_Addr = 0x0A000005, prefix_Bits = 30\<rparr> (Addr4 0x0A000005)
   \<and> Prefix_Contains \<lparr>prefix_Addr = 0x0A000005, prefix_Bits = 30\<rparr> (Addr4 0x0A000004)
   \<and> \<not> Prefix_Contains \<lparr>prefix_Addr = 0x0A000005, prefix_Bits = 30\<rparr> (Addr4 0x0A000003)
   \<and> (0x0A000005 :: 32 word) \<noteq> 0x0A000004
   \<and> 0x0A000005 \<notin> excluded ex_ParseAddr []
   \<and> Addr_String 0x0A000005 = ''10.0.0.5''
   \<and> fst (TerminateAllServers ex_Quote ex_ParsePrefix ex_ParseAddr
             (NewIPAllocator (Some Queries)) ''10.0.0.5/30'' [] (ex_db ''running'' 5))
       = StartupReturn None
   \<and> map IpAddress (ip_addresses (snd (TerminateAllServers ex_Quote ex_ParsePrefix ex_ParseAddr
                                   (NewIPAllocator (Some Queries)) ''10.0.0.5/30'' []
                                   (ex_db ''running'' 5))))
       = [''10.0.0.6'', ''10.0.0.7'']
   \<and> ex_ParsePrefix ''10.0.0.7/30'' = Inr \<lparr>prefix_Addr = 0x0A000007, prefix_Bits = 30\<rparr>
   \<and> Prefix_Contains \<lparr>prefix_Addr = 0x0A000007, prefix_Bits = 30\<rparr> (Addr4 0x0A000005)
   \<and> fst (TerminateAllServers ex_Quote ex_ParsePrefix ex_ParseAddr
             (NewIPAllocator (Some Queries)) ''10.0.0.7/30'' [] (ex_db ''running'' 5))
       = StartupReturn None
   \<and> ip_addresses (snd (TerminateAllServers ex_Quote ex_ParsePrefix ex_ParseAddr
                          (NewIPAllocator (Some Queries)) ''10.0.0.7/30'' []
                          (ex_db ''running'' 5)))
       = []"
proof -
  let ?p5 = "\<lparr>prefix_Addr = 0x0A000005, prefix_Bits = 30\<rparr>"
  let ?p7 = "\<lparr>prefix_Addr = 0x0A000007, prefix_Bits = 30\<rparr>"
  have parse: "ex_ParsePrefix ''10.0.0.5/30'' = Inr ?p5" "ex_ParsePrefix ''10.0.0.7/30'' = Inr ?p7"
    by (simp_all add: ex_ParsePrefix_def)
  have c: "Prefix_Contains ?p5 (Addr4 0x0A000005)" "Prefix_Contains ?p5 (Addr4 0x0A000004)"
    "\<not> Prefix_Contains ?p5 (Addr4 0x0A000003)" "Prefix_Contains ?p7 (Addr4 0x0A000005)"
    by (simp_all add: Prefix_Contains.simps)
  have e: "0x0A000005 \<notin> excluded ex_ParseAddr []"
    by (simp add: excluded_def map_filter_simps)
  have s: "Addr_String 0x0A000005 = ''10.0.0.5''"
    by (rule Addr_String_examples)
  have r5: "TerminateAllServers ex_Quote ex_ParsePrefix ex_ParseAddr
             (NewIPAllocator (Some Queries)) ''10.0.0.5/30'' [] (ex_db ''running'' 5)
           = (StartupReturn None,
              snd (TerminateAllServers ex_Quote ex_ParsePrefix ex_ParseAddr
                     (NewIPAllocator (Some Queries)) ''10.0.0.5/30'' [] (ex_db ''running'' 5)))"
    by (simp add: TerminateAllServers_def NewIPAllocator_def TerminateAllServers_query_def
          TruncateIPAddresses_def run_query_def ex_defs schema_missing_def ex_ParsePrefix_def
          split: prod.splits)
  have pool5: "map IpAddress (ip_addresses (snd (TerminateAllServers ex_Quote ex_ParsePrefix
                   ex_ParseAddr (NewIPAllocator (Some Queries)) ''10.0.0.5/30'' []
                   (ex_db ''running'' 5))))
       = [''10.0.0.6'', ''10.0.0.7'']"
    by (simp add: TerminateAllServers_def NewIPAllocator_def TerminateAllServers_query_def
          TruncateIPAddresses_def run_query_def ex_defs schema_missing_def ex_ParsePrefix_def
          populate.simps populate_body_def Prefix_Contains.simps Addr_Next_def CreateIPAddress_def
          Addr_String_examples Let_def)
  have r7: "TerminateAllServers ex_Quote ex_ParsePrefix ex_ParseAddr
             (NewIPAllocator (Some Queries)) ''10.0.0.7/30'' [] (ex_db ''running'' 5)
           = (StartupReturn None,
              snd (TerminateAllServers ex_Quote ex_ParsePrefix ex_ParseAddr
                     (NewIPAllocator (Some Queries)) ''10.0.0.7/30'' [] (ex_db ''running'' 5)))"
    by (simp add: TerminateAllServers_def NewIPAllocator_def TerminateAllServers_query_def
          TruncateIPAddresses_def run_query_def ex_defs schema_missing_def ex_ParsePrefix_def
          split: prod.splits)
  have pool7: "ip_addresses (snd (TerminateAllServers ex_Quote ex_ParsePrefix ex_ParseAddr
                          (NewIPAllocator (Some Queries)) ''10.0.0.7/30'' []
                          (ex_db ''running'' 5)))
       = []"
    by (simp add: TerminateAllServers_def NewIPAllocator_def TerminateAllServers_query_def
          TruncateIPAddresses_def run_query_def ex_defs schema_missing_def ex_ParsePrefix_def
          populate.simps populate_body_def Prefix_Contains.simps Addr_Next_def Let_def)
  have f5: "fst (TerminateAllServers ex_Quote ex_ParsePrefix ex_ParseAddr
             (NewIPAllocator (Some Queries)) ''10.0.0.5/30'' [] (ex_db ''running'' 5))
       = StartupReturn None"
    by (subst r5) simp
  have f7: "fst (TerminateAllServers ex_Quote ex_ParsePrefix ex_ParseAddr
             (NewIPAllocator (Some Queries)) ''10.0.0.7/30'' [] (ex_db ''running'' 5))
       = StartupReturn None"
    by (subst r7) simp
  have n: "(0x0A000005 :: 32 word) \<noteq> 0x0A000004" by simp
  show ?thesis
    using parse c n e s f5 pool5 f7 pool7 by blast
qed

section \<open>C4: the lifecycle log and its cap\<close>

subsection \<open>Length of the text of a JSONB array, and the log after one append\<close>

lemma jsonb_elements_length:
  "2 * (length es - 1) \<le> length (jsonb_elements es)"
  by (induction es rule: jsonb_elements.induct) simp_all

lemma jsonb_out_length:
  "100 < length es \<Longrightarrow> 100 < length (jsonb_out es)"
  using jsonb_elements_length [of es] by (simp add: jsonb_out_def)

lemma logs_of_update_server:
  assumes "find_server i (servers d) = Some r" and "\<And>r. ID (f r) = ID r"
  shows "logs_of i (d\<lparr>servers := update_server i f (servers d)\<rparr>) = Some (LifecycleLogs (f r))"
  using assms find_server_ID [OF assms(1)] by (simp add: logs_of_def find_server_update)

lemma find_server_update_same:
  assumes "find_server i rows = Some r" and "\<And>r. ID (f r) = ID r"
  shows "find_server i (update_server i f rows) = Some (f r)"
  using assms find_server_ID [OF assms(1)] by (simp add: find_server_update)

lemma append_then_enforce_logs:
  assumes row: "find_server i (servers d) = Some r"
    and nf: "db_fault d QAppendServerLifecycleLog = None" "db_fault d QEnforceLifecycleLogsLimit = None"
  shows "fst (append_then_enforce i m d) = None
     \<and> logs_of i (snd (append_then_enforce i m d))
         = Some (if length (LifecycleLogs r) < 100 then m # LifecycleLogs r
                 else take 15 (m # LifecycleLogs r))"
proof -
  let ?d1 = "d\<lparr>servers := update_server i
                   (\<lambda>r. r\<lparr>LifecycleLogs := m # LifecycleLogs r\<rparr>) (servers d)\<rparr>"
  have a: "AppendServerLifecycleLog m i d = (Inr (jsonb_out (m # LifecycleLogs r)), ?d1)"
    using row nf by (simp add: AppendServerLifecycleLog_def run_query_def)
  have r1: "find_server i (servers ?d1) = Some (r\<lparr>LifecycleLogs := m # LifecycleLogs r\<rparr>)"
    using find_server_update_same [OF row, of "\<lambda>r. r\<lparr>LifecycleLogs := m # LifecycleLogs r\<rparr>"]
    by simp
  have l1: "logs_of i ?d1 = Some (m # LifecycleLogs r)"
    using r1 by (simp add: logs_of_def)
  show ?thesis
  proof (cases "100 < length (jsonb_out (m # LifecycleLogs r))")
    case False
    then have "\<not> 100 < length (m # LifecycleLogs r)"
      using jsonb_out_length by blast
    with False a l1 show ?thesis
      by (simp add: append_then_enforce_def)
  next
    case True
    let ?f = "\<lambda>r. r\<lparr>LifecycleLogs :=
                        (if length (LifecycleLogs r) > 100
                         then take (Suc 14) (LifecycleLogs r)
                         else LifecycleLogs r)\<rparr>"
    have e: "EnforceLifecycleLogsLimit i ?d1 = (None, ?d1\<lparr>servers := update_server i ?f (servers ?d1)\<rparr>)"
      using nf by (simp add: EnforceLifecycleLogsLimit_def run_query_def)
    have "logs_of i (?d1\<lparr>servers := update_server i ?f (servers ?d1)\<rparr>)
            = Some (LifecycleLogs (?f (r\<lparr>LifecycleLogs := m # LifecycleLogs r\<rparr>)))"
      by (rule logs_of_update_server [OF r1]) simp
    with True a e show ?thesis
      by (auto simp: append_then_enforce_def)
  qed
qed

subsection \<open>A run of appends\<close>

lemma append_each_service:
  assumes q: "queries s \<noteq> None"
  shows "append_each (Some s) i (m # ms) d
           = append_each (Some s) i ms (snd (append_then_enforce i m d))"
  by (simp add: AppendServerLifecycleLogs_service [OF q])

lemma append_each_returns:
  assumes q: "queries s \<noteq> None"
  shows "fst (append_each (Some s) i ms d) = Ret ()"
  by (induction ms arbitrary: d) (simp_all add: append_each_service [OF q] del: append_each.simps(2))

lemma append_then_enforce_refused:
  assumes "db_fault d QAppendServerLifecycleLog = Some e"
  shows "snd (append_then_enforce i m d) = d"
  using assms by (simp add: append_then_enforce_def AppendServerLifecycleLog_def run_query_def)

lemma append_then_enforce_db_fault:
  "db_fault (snd (append_then_enforce i m d)) = db_fault d"
  using append_then_enforce_frame [of i m d "fst (append_then_enforce i m d)"
          "snd (append_then_enforce i m d)" i]
  by simp

lemma append_each_db_fault:
  assumes q: "queries s \<noteq> None"
  shows "db_fault (snd (append_each (Some s) i ms d)) = db_fault d"
  by (induction ms arbitrary: d)
     (simp_all add: append_each_service [OF q] append_then_enforce_db_fault
        del: append_each.simps(2))

lemma append_then_enforce_cap:
  assumes row: "find_server i (servers d) = Some r"
    and nfl: "db_fault d QEnforceLifecycleLogsLimit = None"
    and le: "length (LifecycleLogs r) \<le> 100"
  shows "\<exists>r'. find_server i (servers (snd (append_then_enforce i m d))) = Some r'
              \<and> length (LifecycleLogs r') \<le> 100"
proof (cases "db_fault d QAppendServerLifecycleLog")
  case (Some e)
  with row le show ?thesis by (simp add: append_then_enforce_refused)
next
  case None
  from append_then_enforce_logs [OF row None nfl, of m]
  have "logs_of i (snd (append_then_enforce i m d))
         = Some (if length (LifecycleLogs r) < 100 then m # LifecycleLogs r
                 else take 15 (m # LifecycleLogs r))"
    by blast
  then obtain r' where "find_server i (servers (snd (append_then_enforce i m d))) = Some r'"
    and "LifecycleLogs r' = (if length (LifecycleLogs r) < 100 then m # LifecycleLogs r
                 else take 15 (m # LifecycleLogs r))"
    by (auto simp: logs_of_def)
  with le show ?thesis by (auto split: if_splits)
qed

lemma append_each_cap:
  assumes q: "queries s \<noteq> None"
  shows "find_server i (servers d) = Some r \<Longrightarrow> db_fault d QEnforceLifecycleLogsLimit = None
         \<Longrightarrow> length (LifecycleLogs r) \<le> 100
         \<Longrightarrow> \<exists>logs. logs_of i (snd (append_each (Some s) i ms d)) = Some logs \<and> length logs \<le> 100"
proof (induction ms arbitrary: d r)
  case Nil
  then show ?case by (simp add: logs_of_def)
next
  case (Cons m ms)
  from append_then_enforce_cap [OF Cons.prems, of m]
  obtain r' where r': "find_server i (servers (snd (append_then_enforce i m d))) = Some r'"
    "length (LifecycleLogs r') \<le> 100"
    by blast
  have nf': "db_fault (snd (append_then_enforce i m d)) QEnforceLifecycleLogsLimit = None"
    using Cons.prems(2) by (simp add: append_then_enforce_db_fault)
  from Cons.IH [OF r'(1) nf' r'(2)] show ?case
    by (simp add: append_each_service [OF q] del: append_each.simps(2))
qed

lemma append_each_no_truncation:
  assumes q: "queries s \<noteq> None"
  shows "find_server i (servers d) = Some r \<Longrightarrow> db_fault d QAppendServerLifecycleLog = None
         \<Longrightarrow> db_fault d QEnforceLifecycleLogsLimit = None
         \<Longrightarrow> length (LifecycleLogs r) + length ms \<le> 100
         \<Longrightarrow> logs_of i (snd (append_each (Some s) i ms d)) = Some (rev ms @ LifecycleLogs r)"
proof (induction ms arbitrary: d r)
  case Nil
  then show ?case by (simp add: logs_of_def)
next
  case (Cons m ms)
  from append_then_enforce_logs [OF Cons.prems(1-3), of m] Cons.prems(4)
  have "logs_of i (snd (append_then_enforce i m d)) = Some (m # LifecycleLogs r)"
    by simp
  then obtain r' where r': "find_server i (servers (snd (append_then_enforce i m d))) = Some r'"
    "LifecycleLogs r' = m # LifecycleLogs r"
    by (auto simp: logs_of_def)
  have nf': "db_fault (snd (append_then_enforce i m d)) QAppendServerLifecycleLog = None"
    "db_fault (snd (append_then_enforce i m d)) QEnforceLifecycleLogsLimit = None"
    using Cons.prems(2,3) by (simp_all add: append_then_enforce_db_fault)
  have "length (LifecycleLogs r') + length ms \<le> 100"
    using r'(2) Cons.prems(4) by simp
  from Cons.IH [OF r'(1) nf' this] r'(2) show ?case
    by (simp add: append_each_service [OF q] del: append_each.simps(2))
qed

text \<open>
  C4, where the claim as stated fails. After the 101st append the log holds 15 entries,
  not 14. And the cap of 100 entries does not hold across all operations: the reset
  statement of the startup routine adds its entry to the log of every server that is not
  terminated and applies no limit, so a running server with 100 entries has 101 after
  it; and when the store refuses the limit statement, the entry of the 101st append has
  already been written and stays, so the log has 101 entries and the call returns the
  error of the store.
\<close>

theorem log_cap_counterexample:
  "map_option length (logs_of 1 (ex_db_logs 100)) = Some 100
   \<and> status_of 1 (ex_db_logs 100) = Some ''running''
   \<and> fst (AppendServerLifecycleLogs (Some ex_service) None 1 ''{}'' (ex_db_logs 100)) = Ret None
   \<and> map_option length
        (logs_of 1 (snd (AppendServerLifecycleLogs (Some ex_service) None 1 ''{}'' (ex_db_logs 100))))
       = Some 15
   \<and> fst (TerminateAllServers ex_Quote ex_ParsePrefix ex_ParseAddr (NewIPAllocator (Some Queries))
             ''10.0.0.4/30'' [] (ex_db_logs 100))
       = StartupReturn None
   \<and> map_option length
        (logs_of 1 (snd (TerminateAllServers ex_Quote ex_ParsePrefix ex_ParseAddr
                           (NewIPAllocator (Some Queries)) ''10.0.0.4/30'' [] (ex_db_logs 100))))
       = Some 101
   \<and> fst (AppendServerLifecycleLogs (Some ex_service) None 1 ''{}''
             ((ex_db_logs 100)\<lparr>db_fault := one_fault QEnforceLifecycleLogsLimit\<rparr>))
       = Ret (Some (StoreError ''connection lost''))
   \<and> map_option length
        (logs_of 1 (snd (AppendServerLifecycleLogs (Some ex_service) None 1 ''{}''
                           ((ex_db_logs 100)\<lparr>db_fault := one_fault QEnforceLifecycleLogsLimit\<rparr>))))
       = Some 101"
proof -
  let ?r = "(ex_server ''running'')\<lparr>LifecycleLogs := replicate 100 ''{}''\<rparr>"
  let ?df = "(ex_db_logs 100)\<lparr>db_fault := one_fault QEnforceLifecycleLogsLimit\<rparr>"
  have row: "find_server 1 (servers (ex_db_logs 100)) = Some ?r"
    by (simp add: ex_db_logs_def ex_defs find_server_def)
  have nf: "db_fault (ex_db_logs 100) QAppendServerLifecycleLog = None"
           "db_fault (ex_db_logs 100) QEnforceLifecycleLogsLimit = None"
    by (simp_all add: ex_db_logs_def ex_defs)
  have q: "queries ex_service \<noteq> None" by (simp add: ex_defs)
  have before: "map_option length (logs_of 1 (ex_db_logs 100)) = Some 100"
    using row by (simp add: logs_of_def)
  have st: "status_of 1 (ex_db_logs 100) = Some ''running''"
    using row by (simp add: status_of_def ex_defs)
  have a: "fst (AppendServerLifecycleLogs (Some ex_service) None 1 ''{}'' (ex_db_logs 100)) = Ret None"
    "logs_of 1 (snd (AppendServerLifecycleLogs (Some ex_service) None 1 ''{}'' (ex_db_logs 100)))
          = Some (take 15 (''{}'' # replicate 100 ''{}''))"
    using append_then_enforce_logs [OF row nf, of "''{}''"]
    by (simp_all add: AppendServerLifecycleLogs_service [OF q])
  from a(2) have a15: "map_option length
        (logs_of 1 (snd (AppendServerLifecycleLogs (Some ex_service) None 1 ''{}'' (ex_db_logs 100))))
       = Some 15"
    by simp
  have reset: "TerminateAllServers ex_Quote ex_ParsePrefix ex_ParseAddr (NewIPAllocator (Some Queries))
             ''10.0.0.4/30'' [] (ex_db_logs 100)
       = (StartupReturn None,
          snd (TerminateAllServers ex_Quote ex_ParsePrefix ex_ParseAddr (NewIPAllocator (Some Queries))
             ''10.0.0.4/30'' [] (ex_db_logs 100)))"
    by (simp add: TerminateAllServers_def NewIPAllocator_def TerminateAllServers_query_def
          TruncateIPAddresses_def run_query_def ex_db_logs_def ex_defs schema_missing_def
          ex_ParsePrefix_def split: prod.splits)
  have r1: "fst (TerminateAllServers ex_Quote ex_ParsePrefix ex_ParseAddr (NewIPAllocator (Some Queries))
             ''10.0.0.4/30'' [] (ex_db_logs 100))
       = StartupReturn None"
    by (subst reset) simp
  have r2: "map_option length
        (logs_of 1 (snd (TerminateAllServers ex_Quote ex_ParsePrefix ex_ParseAddr
                           (NewIPAllocator (Some Queries)) ''10.0.0.4/30'' [] (ex_db_logs 100))))
       = Some 101"
    by (simp add: TerminateAllServers_def NewIPAllocator_def TerminateAllServers_query_def
          TruncateIPAddresses_def run_query_def ex_db_logs_def ex_defs schema_missing_def
          ex_ParsePrefix_def populate.simps populate_body_def Prefix_Contains.simps Addr_Next_def
          CreateIPAddress_def Addr_String_examples Let_def logs_of_def find_server_def)
  have rowf: "find_server 1 (servers ?df) = Some ?r"
    by (simp add: ex_db_logs_def ex_defs find_server_def)
  have ap: "AppendServerLifecycleLog ''{}'' 1 ?df
              = (Inr (jsonb_out (''{}'' # replicate 100 ''{}'')),
                 ?df\<lparr>servers := update_server 1
                        (\<lambda>r. r\<lparr>LifecycleLogs := ''{}'' # LifecycleLogs r\<rparr>) (servers ?df)\<rparr>)"
    using rowf by (simp add: AppendServerLifecycleLog_def run_query_def one_fault_def)
  have long: "100 < length (jsonb_out (''{}'' # replicate 100 ''{}''))"
    by (rule jsonb_out_length) simp
  have en: "EnforceLifecycleLogsLimit i d = (Some (StoreError ''connection lost''), d)"
    if "db_fault d QEnforceLifecycleLogsLimit = Some ''connection lost''" for i d
    using that by (simp add: EnforceLifecycleLogsLimit_def run_query_def)
  have ate: "append_then_enforce 1 ''{}'' ?df
              = (Some (StoreError ''connection lost''),
                 ?df\<lparr>servers := update_server 1
                        (\<lambda>r. r\<lparr>LifecycleLogs := ''{}'' # LifecycleLogs r\<rparr>) (servers ?df)\<rparr>)"
    unfolding append_then_enforce_def ap using long by (simp add: en one_fault_def)
  have l: "logs_of 1 (?df\<lparr>servers := update_server 1
                        (\<lambda>r. r\<lparr>LifecycleLogs := ''{}'' # LifecycleLogs r\<rparr>) (servers ?df)\<rparr>)
            = Some (''{}'' # replicate 100 ''{}'')"
    using logs_of_update_server [OF rowf, of "\<lambda>r. r\<lparr>LifecycleLogs := ''{}'' # LifecycleLogs r\<rparr>"]
    by simp
  have f1: "fst (AppendServerLifecycleLogs (Some ex_service) None 1 ''{}'' ?df)
       = Ret (Some (StoreError ''connection lost''))"
    unfolding AppendServerLifecycleLogs_service [OF q] ate by simp
  have f2: "map_option length
        (logs_of 1 (snd (AppendServerLifecycleLogs (Some ex_service) None 1 ''{}'' ?df)))
       = Some 101"
    unfolding AppendServerLifecycleLogs_service [OF q] ate snd_conv l by simp
  from before st a(1) a15 r1 r2 f1 f2 show ?thesis by blast
qed

text \<open>
  C4, amended. For every server whose log starts within the cap, and every run of appends
  made through \<open>AppendServerLifecycleLogs\<close> of a service with its queries, in a store that
  takes the limit statement: every call returns, and the log never exceeds 100 entries.
  When the store also takes the append statement: the appends numbered 1 to 100 put each
  new entry in front and truncate nothing, and the 101st append returns without error and
  truncates the log to exactly its 15 most recent entries (the array subscripts 0 to 14).
\<close>

theorem lifecycle_log_append_and_truncate:
  assumes q: "queries s \<noteq> None"
    and row: "find_server i (servers d) = Some r"
    and nfl: "db_fault d QEnforceLifecycleLogsLimit = None"
  shows "fst (append_each (Some s) i ms d) = Ret ()
     \<and> (length (LifecycleLogs r) \<le> 100 \<longrightarrow>
          (\<exists>logs. logs_of i (snd (append_each (Some s) i ms d)) = Some logs \<and> length logs \<le> 100))
     \<and> (db_fault d QAppendServerLifecycleLog = None
           \<and> length (LifecycleLogs r) + length ms \<le> 100 \<longrightarrow>
          logs_of i (snd (append_each (Some s) i ms d)) = Some (rev ms @ LifecycleLogs r))
     \<and> (db_fault d QAppendServerLifecycleLog = None
           \<and> length (LifecycleLogs r) + length ms = 100 \<longrightarrow>
          fst (AppendServerLifecycleLogs (Some s) None i m (snd (append_each (Some s) i ms d)))
            = Ret None
          \<and> logs_of i (snd (AppendServerLifecycleLogs (Some s) None i m
                              (snd (append_each (Some s) i ms d))))
            = Some (take 15 (m # rev ms @ LifecycleLogs r))
          \<and> length (take 15 (m # rev ms @ LifecycleLogs r)) = 15)"
proof -
  have a: "fst (append_each (Some s) i ms d) = Ret ()"
    by (rule append_each_returns [OF q])
  have b: "\<exists>logs. logs_of i (snd (append_each (Some s) i ms d)) = Some logs \<and> length logs \<le> 100"
    if "length (LifecycleLogs r) \<le> 100"
    using append_each_cap [OF q row nfl that] .
  have c: "logs_of i (snd (append_each (Some s) i ms d)) = Some (rev ms @ LifecycleLogs r)"
    if "db_fault d QAppendServerLifecycleLog = None" "length (LifecycleLogs r) + length ms \<le> 100"
    using append_each_no_truncation [OF q row that(1) nfl that(2)] .
  have d: "fst (AppendServerLifecycleLogs (Some s) None i m (snd (append_each (Some s) i ms d)))
            = Ret None
          \<and> logs_of i (snd (AppendServerLifecycleLogs (Some s) None i m
                              (snd (append_each (Some s) i ms d))))
            = Some (take 15 (m # rev ms @ LifecycleLogs r))
          \<and> length (take 15 (m # rev ms @ LifecycleLogs r)) = 15"
    if nfa: "db_fault d QAppendServerLifecycleLog = None"
      and len: "length (LifecycleLogs r) + length ms = 100"
  proof -
    let ?d = "snd (append_each (Some s) i ms d)"
    have l: "logs_of i ?d = Some (rev ms @ LifecycleLogs r)"
      using append_each_no_truncation [OF q row nfa nfl] len by simp
    then obtain r' where r': "find_server i (servers ?d) = Some r'"
      "LifecycleLogs r' = rev ms @ LifecycleLogs r"
      by (auto simp: logs_of_def)
    have f: "db_fault ?d = db_fault d"
      by (rule append_each_db_fault [OF q])
    have nf': "db_fault ?d QAppendServerLifecycleLog = None"
      "db_fault ?d QEnforceLifecycleLogsLimit = None"
      using nfa nfl by (simp_all only: f)
    have "fst (append_then_enforce i m ?d) = None
      \<and> logs_of i (snd (append_then_enforce i m ?d))
          = Some (take 15 (m # rev ms @ LifecycleLogs r))"
      using append_then_enforce_logs [OF r'(1) nf', of m] r'(2) len by simp
    moreover have "length (take 15 (m # rev ms @ LifecycleLogs r)) = 15"
      using len by simp
    ultimately show ?thesis
      by (simp add: AppendServerLifecycleLogs_service [OF q])
  qed
  from a b c d show ?thesis by blast
qed


theorem lifecycle_log_append_and_truncate_witness:
  "queries ex_service \<noteq> None
   \<and> find_server 1 (servers (ex_db_logs 98))
        = Some ((ex_server ''running'')\<lparr>LifecycleLogs := replicate 98 ''{}''\<rparr>)
   \<and> db_fault (ex_db_logs 98) QEnforceLifecycleLogsLimit = None
   \<and> db_fault (ex_db_logs 98) QAppendServerLifecycleLog = None
   \<and> fst (append_each (Some ex_service) 1 [''99'', ''100''] (ex_db_logs 98)) = Ret ()
   \<and> (\<exists>logs. logs_of 1 (snd (append_each (Some ex_service) 1 [''99'', ''100''] (ex_db_logs 98)))
                 = Some logs \<and> length logs \<le> 100)
   \<and> logs_of 1 (snd (append_each (Some ex_service) 1 [''99'', ''100''] (ex_db_logs 98)))
       = Some (''100'' # ''99'' # replicate 98 ''{}'')
   \<and> fst (AppendServerLifecycleLogs (Some ex_service) None 1 ''101''
             (snd (append_each (Some ex_service) 1 [''99'', ''100''] (ex_db_logs 98))))
       = Ret None
   \<and> logs_of 1 (snd (AppendServerLifecycleLogs (Some ex_service) None 1 ''101''
                       (snd (append_each (Some ex_service) 1 [''99'', ''100''] (ex_db_logs 98)))))
       = Some (''101'' # ''100'' # ''99'' # replicate 12 ''{}'')"
proof -
  have row: "find_server 1 (servers (ex_db_logs 98))
               = Some ((ex_server ''running'')\<lparr>LifecycleLogs := replicate 98 ''{}''\<rparr>)"
    by (simp add: ex_db_logs_def ex_defs find_server_def)
  have nfl: "db_fault (ex_db_logs 98) QEnforceLifecycleLogsLimit = None"
    and nfa: "db_fault (ex_db_logs 98) QAppendServerLifecycleLog = None"
    by (simp_all add: ex_db_logs_def ex_defs)
  have q: "queries ex_service \<noteq> None" by (simp add: ex_defs)
  note t = lifecycle_log_append_and_truncate
             [OF q row nfl, where ms = "[''99'', ''100'']" and m = "''101''"]
  have r: "fst (append_each (Some ex_service) 1 [''99'', ''100''] (ex_db_logs 98)) = Ret ()"
    using t by blast
  have c: "\<exists>logs. logs_of 1 (snd (append_each (Some ex_service) 1 [''99'', ''100''] (ex_db_logs 98)))
                 = Some logs \<and> length logs \<le> 100"
    using t by simp
  have n: "logs_of 1 (snd (append_each (Some ex_service) 1 [''99'', ''100''] (ex_db_logs 98)))
       = Some (''100'' # ''99'' # replicate 98 ''{}'')"
    using t nfa by simp
  have o: "fst (AppendServerLifecycleLogs (Some ex_service) None 1 ''101''
             (snd (append_each (Some ex_service) 1 [''99'', ''100''] (ex_db_logs 98))))
       = Ret None"
    "logs_of 1 (snd (AppendServerLifecycleLogs (Some ex_service) None 1 ''101''
                       (snd (append_each (Some ex_service) 1 [''99'', ''100''] (ex_db_logs 98)))))
       = Some (''101'' # ''100'' # ''99'' # replicate 12 ''{}'')"
    using t nfa by simp_all
  from q row nfl nfa r c n o show ?thesis by blast
qed

end
